theory Spec2Isabelle
  imports Main
begin

section \<open>Values, paths and errors\<close>

text \<open>
  The script reads two files and looks at them only through \<open>dict.get\<close>, \<open>dict.items\<close>,
  \<open>dict.keys\<close>, truthiness and string formatting. A parsed file is a value of \<open>json\<close>:
  \<open>JNull\<close> is Python's \<open>None\<close>, an object keeps its entries in insertion order. Numbers are
  integers: the script never inspects a number.
\<close>

datatype json =
    JNull
  | JBool bool
  | JInt int
  | JStr string
  | JArr "json list"
  | JObj "(string \<times> json) list"

text \<open>
  A \<open>pathlib\<close> path is kept as it is built: \<open>Path s\<close> from a string, \<open>Div p s\<close> for \<open>p / s\<close>.
\<close>

datatype path = Path string | Div path string

datatype arg = S string | P path

datatype error =
    FileNotFoundError path
  | AttributeError
  | HclParseError
  | JSONDecodeError
  | CalledProcessError int "arg list"

record invocation =
  argv :: "arg list"
  cwd :: path
  stdout :: "path option"

text \<open>
  The state is the file system (regular files and their contents), whatever else the
  external tools see and change (\<open>ext\<close>), and the log of the subprocess invocations made
  so far, each with the files as they were when the subprocess started.
\<close>

record 'x state =
  files :: "path \<rightharpoonup> string"
  ext :: 'x
  calls :: "(invocation \<times> (path \<rightharpoonup> string)) list"

text \<open>
  What the script does not define itself is a parameter: the external commands (exit code,
  files and hidden state after the run), the two parsers (\<open>None\<close> when the parser raises) and
  \<open>str\<close> on a value that is not a string.
\<close>

record 'x env =
  run_process :: "invocation \<Rightarrow> (path \<rightharpoonup> string) \<Rightarrow> 'x \<Rightarrow> int \<times> (path \<rightharpoonup> string) \<times> 'x"
  hcl_load :: "string \<Rightarrow> json option"
  json_load :: "string \<Rightarrow> json option"
  str_of :: "json \<Rightarrow> string"

text \<open>A step either completes or raises; both carry the state reached.\<close>

datatype 'x outcome = Done "'x state" | Raised error "'x state"

fun state_of :: "'x outcome \<Rightarrow> 'x state" where
  "state_of (Done s) = s"
| "state_of (Raised e s) = s"

section \<open>Python built-ins the script uses\<close>

fun dict_get :: "json \<Rightarrow> string \<Rightarrow> json \<Rightarrow> error + json" where
  "dict_get (JObj kvs) k d = Inr (case map_of kvs k of None \<Rightarrow> d | Some v \<Rightarrow> v)"
| "dict_get _ k d = Inl AttributeError"

fun dict_items :: "json \<Rightarrow> error + (string \<times> json) list" where
  "dict_items (JObj kvs) = Inr kvs"
| "dict_items _ = Inl AttributeError"

fun dict_keys :: "json \<Rightarrow> error + string list" where
  "dict_keys (JObj kvs) = Inr (map fst kvs)"
| "dict_keys _ = Inl AttributeError"

fun truthy :: "json \<Rightarrow> bool" where
  "truthy JNull = False"
| "truthy (JBool b) = b"
| "truthy (JInt i) = (i \<noteq> 0)"
| "truthy (JStr s) = (s \<noteq> [])"
| "truthy (JArr xs) = (xs \<noteq> [])"
| "truthy (JObj kvs) = (kvs \<noteq> [])"

fun format_value :: "'x env \<Rightarrow> json \<Rightarrow> string" where
  "format_value env (JStr s) = s"
| "format_value env v = str_of env v"

fun startswith :: "string \<Rightarrow> string \<Rightarrow> bool" where
  "startswith s [] = True"
| "startswith [] (p # ps) = False"
| "startswith (c # cs) (p # ps) = (c = p \<and> startswith cs ps)"

text \<open>
  \<open>str.replace(old, new)\<close>: the occurrences of \<open>old\<close> are found from left to right, each
  search starting after the previous occurrence; an empty \<open>old\<close> matches before every
  character and at the end.
\<close>

fun replace :: "string \<Rightarrow> string \<Rightarrow> string \<Rightarrow> string" where
  "replace [] old new = (if old = [] then new else [])"
| "replace (c # cs) old new =
     (if old = [] then new @ c # replace cs old new
      else if startswith (c # cs) old then new @ replace (drop (length old) (c # cs)) old new
      else c # replace cs old new)"

definition read_file :: "path \<Rightarrow> 'x state \<Rightarrow> error + string" where
  "read_file p s = (case files s p of None \<Rightarrow> Inl (FileNotFoundError p) | Some c \<Rightarrow> Inr c)"

text \<open>
  A file opened for writing is a buffer that \<open>write\<close> extends; leaving the \<open>with\<close> block
  stores it under the file's name.
\<close>

definition file_write :: "string \<Rightarrow> string \<Rightarrow> string" where
  "file_write buf txt = buf @ txt"

definition close_file :: "path \<Rightarrow> string \<Rightarrow> 'x state \<Rightarrow> 'x state" where
  "close_file p buf s = s\<lparr>files := (files s)(p \<mapsto> buf)\<rparr>"

definition unlink :: "path \<Rightarrow> 'x state \<Rightarrow> 'x outcome" where
  "unlink p s =
     (case files s p of
        None \<Rightarrow> Raised (FileNotFoundError p) s
      | Some c \<Rightarrow> Done (s\<lparr>files := (files s)(p := None)\<rparr>))"

text \<open>
  \<open>subprocess.check_call\<close>: the command runs on the current files; the invocation is
  logged; a non-zero exit code raises.
\<close>

definition check_call :: "'x env \<Rightarrow> invocation \<Rightarrow> 'x state \<Rightarrow> 'x outcome" where
  "check_call env call s =
     (case run_process env call (files s) (ext s) of
        (rc, fs', x') \<Rightarrow>
          (let s' = s\<lparr>files := fs', ext := x', calls := calls s @ [(call, files s)]\<rparr>
           in if rc = 0 then Done s' else Raised (CalledProcessError rc (argv call)) s'))"

section \<open>The script\<close>

text \<open>
  The file system of the model holds regular files only. The working directory is taken to
  exist and to be writable, so \<open>os.makedirs\<close> changes no file and opening a file for writing
  succeeds; a command that cannot be started, and text that cannot be encoded, are not
  modelled. What is modelled of the failures: a missing file on reading and on \<open>os.unlink\<close>,
  a parser that raises, a value that is not a dictionary where \<open>get\<close>, \<open>items\<close> or \<open>keys\<close> is
  called, and a subprocess that exits with a code other than 0.
\<close>

definition LF :: char where
  "LF = CHR 0x0A"

definition WORKING_DIRECTORY :: path where
  "WORKING_DIRECTORY = Path ''/tmp/generate_terraform_ctags''"

definition CTAGS_COMMAND :: string where
  "CTAGS_COMMAND = ''ctags''"

definition TERRAFORM_COMMAND :: string where
  "TERRAFORM_COMMAND = ''terraform''"

definition TERRAFORM_SCHEMAS_FILENAME :: string where
  "TERRAFORM_SCHEMAS_FILENAME = ''providers_schemas.json''"

definition TERRAFORM_SCRIPT_FILENAME :: string where
  "TERRAFORM_SCRIPT_FILENAME = ''generate_schemas_script.tf''"

definition provider_block :: "string \<Rightarrow> string \<Rightarrow> string list" where
  \<open>provider_block name source =
     [''    '' @ name @ '' = {'', ''      source  = "'' @ source @ ''"'', ''    }'']\<close>

definition TERRAFORM_PROVIDERS_SCRIPT :: string where
  "TERRAFORM_PROVIDERS_SCRIPT =
     concat (map (\<lambda>l. l @ [LF])
       ([[], ''terraform {'', ''  required_providers {'']
        @ provider_block ''aws'' ''hashicorp/aws''
        @ provider_block ''azurerm'' ''hashicorp/azurerm''
        @ provider_block ''dns'' ''hashicorp/dns''
        @ provider_block ''helm'' ''hashicorp/helm''
        @ provider_block ''google'' ''hashicorp/google''
        @ provider_block ''kubectl'' ''gavinbunney/kubectl''
        @ provider_block ''kubernetes'' ''hashicorp/kubernetes''
        @ provider_block ''opentelekomcloud'' ''opentelekomcloud/opentelekomcloud''
        @ provider_block ''proxmox'' ''bpg/proxmox''
        @ [''  }'', ''}'']))"

definition generate_terraform_provider_schemas :: "'x env \<Rightarrow> 'x state \<Rightarrow> 'x outcome" where
  "generate_terraform_provider_schemas env s =
     (let s1 = close_file (Div WORKING_DIRECTORY ''main.tf'') (file_write [] TERRAFORM_PROVIDERS_SCRIPT) s
      in case check_call env
             \<lparr>argv = [S TERRAFORM_COMMAND, S ''init''], cwd = WORKING_DIRECTORY, stdout = None\<rparr> s1 of
           Raised e s2 \<Rightarrow> Raised e s2
         | Done s2 \<Rightarrow>
             (let filename = Div WORKING_DIRECTORY TERRAFORM_SCHEMAS_FILENAME;
                  s3 = close_file filename [] s2
              in check_call env
                   \<lparr>argv = [S TERRAFORM_COMMAND, S ''providers'', S ''schema'', S ''-json''],
                    cwd = WORKING_DIRECTORY, stdout = Some filename\<rparr> s3))"

definition provider_name :: "string \<Rightarrow> string" where
  "provider_name provider_spec =
     replace (replace provider_spec ''registry.terraform.io/'' []) ''/'' ''_''"

definition resource_line :: "string \<Rightarrow> string" where
  \<open>resource_line resource_schema =
     ''resource "'' @ resource_schema @ ''" "'' @ resource_schema @ ''" {}'' @ [LF]\<close>

definition data_line :: "string \<Rightarrow> string" where
  \<open>data_line data_source_schema =
     ''data "'' @ data_source_schema @ ''" "'' @ data_source_schema @ ''" {}'' @ [LF]\<close>

definition script_text :: "string list \<Rightarrow> string list \<Rightarrow> string" where
  "script_text resource_schemas data_source_schemas =
     fold (\<lambda>data_source_schema f. file_write f (data_line data_source_schema)) data_source_schemas
       (fold (\<lambda>resource_schema f. file_write f (resource_line resource_schema)) resource_schemas [])"

definition output_filename :: "'x env \<Rightarrow> string \<Rightarrow> json \<Rightarrow> path" where
  "output_filename env provider_spec provider_version =
     (let provider_version = (if truthy provider_version then provider_version else JStr ''unknown'')
      in Div WORKING_DIRECTORY
           (provider_name provider_spec @ ''-'' @ format_value env provider_version @ ''.hcl.tags''))"

definition ctags_invocation :: "'x env \<Rightarrow> string \<Rightarrow> json \<Rightarrow> invocation" where
  "ctags_invocation env provider_spec provider_version =
     \<lparr>argv = [S CTAGS_COMMAND, S ''-f'', P (output_filename env provider_spec provider_version),
              P (Div WORKING_DIRECTORY TERRAFORM_SCRIPT_FILENAME)],
      cwd = WORKING_DIRECTORY, stdout = None\<rparr>"

definition generate_terraform_tags_for_provider ::
  "'x env \<Rightarrow> string \<Rightarrow> json \<Rightarrow> string list \<Rightarrow> string list \<Rightarrow> 'x state \<Rightarrow> 'x outcome" where
  "generate_terraform_tags_for_provider env provider_spec provider_version
       resource_schemas data_source_schemas s =
     (let filename = Div WORKING_DIRECTORY TERRAFORM_SCRIPT_FILENAME;
          s1 = close_file filename (script_text resource_schemas data_source_schemas) s
      in case check_call env (ctags_invocation env provider_spec provider_version) s1 of
           Raised e s2 \<Rightarrow> Raised e s2
         | Done s2 \<Rightarrow> unlink (Div WORKING_DIRECTORY TERRAFORM_SCRIPT_FILENAME) s2)"

text \<open>The loop over the lock file's \<open>provider\<close> section (lines 106 and 107).\<close>

fun provider_versions_loop ::
  "(string \<times> json) list \<Rightarrow> (string \<rightharpoonup> json) \<Rightarrow> error + (string \<rightharpoonup> json)" where
  "provider_versions_loop [] provider_versions = Inr provider_versions"
| "provider_versions_loop ((provider_spec, provider_data) # rest) provider_versions =
     (case dict_get provider_data ''version'' JNull of
        Inl e \<Rightarrow> Inl e
      | Inr v \<Rightarrow> provider_versions_loop rest (provider_versions(provider_spec \<mapsto> v)))"

text \<open>\<open>provider_versions.get(provider_spec)\<close> on the dictionary built above.\<close>

definition versions_get :: "(string \<rightharpoonup> json) \<Rightarrow> string \<Rightarrow> json" where
  "versions_get provider_versions provider_spec =
     (case provider_versions provider_spec of None \<Rightarrow> JNull | Some v \<Rightarrow> v)"

text \<open>\<open>provider_schema.get(name, {}).keys()\<close>, as lines 114 and 115 have it.\<close>

definition section_keys :: "json \<Rightarrow> string \<Rightarrow> error + string list" where
  "section_keys provider_schema name =
     (case dict_get provider_schema name (JObj []) of
        Inl e \<Rightarrow> Inl e
      | Inr section \<Rightarrow> dict_keys section)"

text \<open>One round of the loop over \<open>provider_schemas\<close> (lines 113 to 118).\<close>

definition tags_for_entry ::
  "'x env \<Rightarrow> (string \<rightharpoonup> json) \<Rightarrow> string \<times> json \<Rightarrow> 'x state \<Rightarrow> 'x outcome" where
  "tags_for_entry env provider_versions entry s =
     (case entry of (provider_spec, provider_schema) \<Rightarrow>
        (let provider_version = versions_get provider_versions provider_spec
         in case section_keys provider_schema ''resource_schemas'' of
              Inl e \<Rightarrow> Raised e s
            | Inr resource_schemas \<Rightarrow>
                (case section_keys provider_schema ''data_source_schemas'' of
                   Inl e \<Rightarrow> Raised e s
                 | Inr data_source_schemas \<Rightarrow>
                     generate_terraform_tags_for_provider env provider_spec
                       provider_version resource_schemas data_source_schemas s)))"

fun tags_loop ::
  "'x env \<Rightarrow> (string \<rightharpoonup> json) \<Rightarrow> (string \<times> json) list \<Rightarrow> 'x state \<Rightarrow> 'x outcome" where
  "tags_loop env provider_versions [] s = Done s"
| "tags_loop env provider_versions (entry # rest) s =
     (case tags_for_entry env provider_versions entry s of
        Raised e s' \<Rightarrow> Raised e s'
      | Done s' \<Rightarrow> tags_loop env provider_versions rest s')"

text \<open>Lines 103 to 107: the lock file, parsed, as the dictionary of versions.\<close>

definition read_provider_versions :: "'x env \<Rightarrow> 'x state \<Rightarrow> error + (string \<rightharpoonup> json)" where
  "read_provider_versions env s =
     (case read_file (Div WORKING_DIRECTORY ''.terraform.lock.hcl'') s of
        Inl e \<Rightarrow> Inl e
      | Inr txt \<Rightarrow>
          (case hcl_load env txt of
             None \<Rightarrow> Inl HclParseError
           | Some lockfile_contents \<Rightarrow>
               (case dict_get lockfile_contents ''provider'' (JObj []) of
                  Inl e \<Rightarrow> Inl e
                | Inr providers \<Rightarrow>
                    (case dict_items providers of
                       Inl e \<Rightarrow> Inl e
                     | Inr entries \<Rightarrow> provider_versions_loop entries Map.empty))))"

text \<open>Lines 109 and 110: the schema file, parsed.\<close>

definition read_schemas :: "'x env \<Rightarrow> 'x state \<Rightarrow> error + json" where
  "read_schemas env s =
     (case read_file (Div WORKING_DIRECTORY TERRAFORM_SCHEMAS_FILENAME) s of
        Inl e \<Rightarrow> Inl e
      | Inr txt \<Rightarrow>
          (case json_load env txt of
             None \<Rightarrow> Inl JSONDecodeError
           | Some schemas \<Rightarrow> Inr schemas))"

definition generate_terraform_tags :: "'x env \<Rightarrow> 'x state \<Rightarrow> 'x outcome" where
  "generate_terraform_tags env s =
     (case read_provider_versions env s of
        Inl e \<Rightarrow> Raised e s
      | Inr provider_versions \<Rightarrow>
          (case read_schemas env s of
             Inl e \<Rightarrow> Raised e s
           | Inr schemas \<Rightarrow>
               (case dict_get schemas ''provider_schemas'' (JObj []) of
                  Inl e \<Rightarrow> Raised e s
                | Inr provider_schemas \<Rightarrow>
                    (case dict_items provider_schemas of
                       Inl e \<Rightarrow> Raised e s
                     | Inr entries \<Rightarrow> tags_loop env provider_versions entries s))))"

definition main :: "'x env \<Rightarrow> 'x state \<Rightarrow> 'x outcome" where
  "main env s =
     (case generate_terraform_provider_schemas env s of
        Raised e s' \<Rightarrow> Raised e s'
      | Done s' \<Rightarrow> generate_terraform_tags env s')"

section \<open>Notions the properties are stated with\<close>

text \<open>\<open>contains s p\<close>: the text \<open>p\<close> occurs somewhere in \<open>s\<close> (Python's \<open>p in s\<close>).\<close>

fun contains :: "string \<Rightarrow> string \<Rightarrow> bool" where
  "contains [] p = (p = [])"
| "contains (c # cs) p = (startswith (c # cs) p \<or> contains cs p)"

text \<open>
  The provider name as the specification words it: one leading occurrence of the registry
  host is stripped if there is one, then every path separator becomes an underscore.
\<close>

definition strip_leading :: "string \<Rightarrow> string \<Rightarrow> string" where
  "strip_leading s p = (if startswith s p then drop (length p) s else s)"

definition spec_provider_name :: "string \<Rightarrow> string" where
  "spec_provider_name provider_spec =
     map (\<lambda>c. if c = CHR ''/'' then CHR ''_'' else c)
       (strip_leading provider_spec ''registry.terraform.io/'')"

text \<open>
  The physical lines of a text: the pieces that end with a line feed, each with its line
  feed, and what follows the last line feed when that is not empty.
\<close>

fun split_lines :: "string \<Rightarrow> string \<Rightarrow> string list" where
  "split_lines acc [] = (if acc = [] then [] else [acc])"
| "split_lines acc (c # cs) =
     (if c = LF then (acc @ [c]) # split_lines [] cs else split_lines (acc @ [c]) cs)"

definition physical_lines :: "string \<Rightarrow> string list" where
  "physical_lines txt = split_lines [] txt"

text \<open>The synthetic configuration file, and what one logged invocation shows of it.\<close>

definition script_file :: path where
  "script_file = Div WORKING_DIRECTORY TERRAFORM_SCRIPT_FILENAME"


definition lock_file :: path where
  "lock_file = Div WORKING_DIRECTORY ''.terraform.lock.hcl''"

definition schemas_file :: path where
  "schemas_file = Div WORKING_DIRECTORY TERRAFORM_SCHEMAS_FILENAME"

definition new_calls :: "'x state \<Rightarrow> 'x outcome \<Rightarrow> (invocation \<times> (path \<rightharpoonup> string)) list" where
  "new_calls s r = drop (length (calls s)) (calls (state_of r))"

definition script_seen :: "invocation \<times> (path \<rightharpoonup> string) \<Rightarrow> invocation \<times> string option" where
  "script_seen c = (fst c, snd c script_file)"

text \<open>
  What the tag tool is shown for one entry of \<open>provider_schemas\<close>, when the run gets as far
  as invoking it for that entry.
\<close>

definition keys_or_empty :: "json \<Rightarrow> string \<Rightarrow> string list" where
  "keys_or_empty provider_schema name =
     (case section_keys provider_schema name of Inl e \<Rightarrow> [] | Inr ks \<Rightarrow> ks)"

definition entry_seen ::
  "'x env \<Rightarrow> (string \<rightharpoonup> json) \<Rightarrow> string \<times> json \<Rightarrow> invocation \<times> string option" where
  "entry_seen env provider_versions entry =
     (ctags_invocation env (fst entry) (versions_get provider_versions (fst entry)),
      Some (script_text (keys_or_empty (snd entry) ''resource_schemas'')
              (keys_or_empty (snd entry) ''data_source_schemas'')))"

text \<open>A tool that exits with 0 and changes nothing, and a state with no files, for examples.\<close>

definition quiet_env :: "unit env" where
  "quiet_env = \<lparr>run_process = (\<lambda>call fs x. (0, fs, x)), hcl_load = (\<lambda>txt. None),
     json_load = (\<lambda>txt. None), str_of = (\<lambda>v. [])\<rparr>"

definition empty_state :: "unit state" where
  "empty_state = \<lparr>files = Map.empty, ext = (), calls = []\<rparr>"

text \<open>Whether a step completed, that is, returned without raising.\<close>

fun completed :: "'x outcome \<Rightarrow> bool" where
  "completed (Done s) = True"
| "completed (Raised e s) = False"



text \<open>
  For examples: tools that change nothing and exit as \<open>exit\<close> says, parsers that give the
  two parsed files, and a state that holds the lock file and the schema file.
\<close>

definition tool_env :: "(invocation \<Rightarrow> int) \<Rightarrow> json \<Rightarrow> json \<Rightarrow> unit env" where
  "tool_env exit lock schemas =
     \<lparr>run_process = (\<lambda>call fs x. (exit call, fs, x)), hcl_load = (\<lambda>txt. Some lock),
      json_load = (\<lambda>txt. Some schemas), str_of = (\<lambda>v. [])\<rparr>"

definition input_state :: "unit state" where
  "input_state =
     \<lparr>files = [lock_file \<mapsto> ''lock'', schemas_file \<mapsto> ''schemas''], ext = (), calls = []\<rparr>"

section \<open>Basic facts\<close>

lemma replace_char: "replace s [c] [d] = map (\<lambda>x. if x = c then d else x) s"
  by (induction s) auto

lemma replace_absent: "old \<noteq> [] \<Longrightarrow> \<not> contains s old \<Longrightarrow> replace s old new = s"
  by (induction s) auto

lemma replace_leading:
  assumes "old \<noteq> []" "startswith s old"
  shows "replace s old new = new @ replace (drop (length old) s) old new"
  using assms by (cases s; cases old) auto

lemma provider_name_map:
  "provider_name s = map (\<lambda>c. if c = CHR ''/'' then CHR ''_'' else c) (replace s ''registry.terraform.io/'' [])"
  unfolding provider_name_def by (rule replace_char)

lemma fold_write: "fold (\<lambda>x f. file_write f (g x)) xs buf = buf @ concat (map g xs)"
  by (induction xs arbitrary: buf) (simp_all add: file_write_def)

lemma script_text_eq: "script_text rs ds = concat (map resource_line rs) @ concat (map data_line ds)"
  by (simp add: script_text_def fold_write)

lemma check_call_calls: "calls (state_of (check_call env c s)) = calls s @ [(c, files s)]"
  by (simp add: check_call_def Let_def split: prod.splits)

lemma check_call_cases:
  assumes "run_process env c (files s) (ext s) = (rc, fs', x')"
  shows "check_call env c s =
    (if rc = 0 then Done (s\<lparr>files := fs', ext := x', calls := calls s @ [(c, files s)]\<rparr>)
     else Raised (CalledProcessError rc (argv c)) (s\<lparr>files := fs', ext := x', calls := calls s @ [(c, files s)]\<rparr>))"
  using assms by (simp add: check_call_def Let_def)

lemma unlink_calls: "calls (state_of (unlink p s)) = calls s"
  by (simp add: unlink_def split: option.splits)

lemma unlink_Done: "unlink p s = Done s' \<Longrightarrow> files s' p = None \<and> calls s' = calls s"
  by (auto simp: unlink_def split: option.splits)

lemma provider_calls:
  "calls (state_of (generate_terraform_tags_for_provider env spec v rs ds s)) =
     calls s @ [(ctags_invocation env spec v, (files s)(script_file \<mapsto> script_text rs ds))]"
proof -
  let ?s1 = "close_file script_file (script_text rs ds) s"
  have a: "calls (state_of (check_call env (ctags_invocation env spec v) ?s1)) =
      calls s @ [(ctags_invocation env spec v, (files s)(script_file \<mapsto> script_text rs ds))]"
    by (simp add: check_call_calls close_file_def)
  show ?thesis
  proof (cases "check_call env (ctags_invocation env spec v) ?s1")
    case (Done s2)
    with a show ?thesis
      by (simp add: generate_terraform_tags_for_provider_def Let_def script_file_def unlink_calls)
  next
    case (Raised e s2)
    with a show ?thesis
      by (simp add: generate_terraform_tags_for_provider_def Let_def script_file_def)
  qed
qed

lemma provider_Done:
  "generate_terraform_tags_for_provider env spec v rs ds s = Done s' \<Longrightarrow> files s' script_file = None"
  by (auto simp: generate_terraform_tags_for_provider_def Let_def script_file_def
      split: outcome.splits dest: unlink_Done)

lemma new_calls_provider:
  "new_calls s (generate_terraform_tags_for_provider env spec v rs ds s) =
     [(ctags_invocation env spec v, (files s)(script_file \<mapsto> script_text rs ds))]"
  by (simp add: new_calls_def provider_calls)

lemma resource_line_inj: "resource_line a = resource_line b \<Longrightarrow> a = b"
proof -
  assume h: "resource_line a = resource_line b"
  then have "length (resource_line a) = length (resource_line b)" by simp
  then have "length a = length b" by (simp add: resource_line_def)
  with h show "a = b" by (simp add: resource_line_def)
qed

lemma data_line_inj: "data_line a = data_line b \<Longrightarrow> a = b"
proof -
  assume h: "data_line a = data_line b"
  then have "length (data_line a) = length (data_line b)" by simp
  then have "length a = length b" by (simp add: data_line_def)
  with h show "a = b" by (simp add: data_line_def)
qed

lemma resource_not_data: "resource_line a \<noteq> data_line b"
  by (simp add: resource_line_def data_line_def)

lemma count_list_map_inj:
  assumes "\<And>a b. f a = f b \<Longrightarrow> a = b"
  shows "count_list (map f xs) (f x) = count_list xs x"
  using assms by (induction xs) auto

lemma count_list_map_absent:
  assumes "\<And>a. f a \<noteq> y"
  shows "count_list (map f xs) y = 0"
  using assms by (induction xs) auto

lemma count_list_distinct: "distinct xs \<Longrightarrow> x \<in> set xs \<Longrightarrow> count_list xs x = 1"
  by (induction xs) auto

lemma split_lines_line:
  "LF \<notin> set body \<Longrightarrow> split_lines acc (body @ LF # rest) = (acc @ body @ [LF]) # split_lines [] rest"
  by (induction body arbitrary: acc) auto

lemma physical_lines_concat:
  assumes "\<And>l. l \<in> set ls \<Longrightarrow> \<exists>b. l = b @ [LF] \<and> LF \<notin> set b"
  shows "physical_lines (concat ls) = ls"
  using assms unfolding physical_lines_def
proof (induction ls)
  case Nil
  then show ?case by simp
next
  case (Cons l ls)
  from Cons.prems[of l] obtain b where b: "l = b @ [LF]" "LF \<notin> set b" by auto
  have "split_lines [] (concat (l # ls)) = split_lines [] (b @ LF # concat ls)"
    using b by simp
  also have "\<dots> = ([] @ b @ [LF]) # split_lines [] (concat ls)"
    using b(2) by (rule split_lines_line)
  finally show ?case using Cons.IH Cons.prems b by simp
qed

lemma resource_line_body:
  "LF \<notin> set n \<Longrightarrow> \<exists>b. resource_line n = b @ [LF] \<and> LF \<notin> set b"
  by (simp add: resource_line_def LF_def)

lemma data_line_body:
  "LF \<notin> set n \<Longrightarrow> \<exists>b. data_line n = b @ [LF] \<and> LF \<notin> set b"
  by (simp add: data_line_def LF_def)

section \<open>The synthetic configuration file\<close>

lemma script_lines:
  assumes "\<forall>n \<in> set rs \<union> set ds. LF \<notin> set n"
  shows "physical_lines (script_text rs ds) = map resource_line rs @ map data_line ds"
proof -
  have "physical_lines (concat (map resource_line rs @ map data_line ds)) =
      map resource_line rs @ map data_line ds"
  proof (rule physical_lines_concat)
    fix l assume "l \<in> set (map resource_line rs @ map data_line ds)"
    then consider r where "r \<in> set rs" "l = resource_line r"
      | d where "d \<in> set ds" "l = data_line d" by auto
    then show "\<exists>b. l = b @ [LF] \<and> LF \<notin> set b"
      using assms by cases (auto intro: resource_line_body data_line_body)
  qed
  then show ?thesis by (simp add: script_text_eq)
qed

text \<open>
  C1, as the code has it: whatever the provider, for a set of resource type names and a set
  of data-source type names (each listed once, in any order) none of which holds a line
  feed, the file the per-provider generator hands to the tag tool has exactly one line per
  resource name and exactly one line per data-source name: none twice, none missing,
  nothing else. The line of a resource name is \<open>resource "T" "T" {}\<close>, that of a data-source
  name \<open>data "T" "T" {}\<close>: the type name is type and label, the body is empty.
\<close>

theorem one_line_per_type_name:
  assumes \<open>distinct resource_schemas\<close> and \<open>distinct data_source_schemas\<close>
      and \<open>\<forall>n \<in> set resource_schemas \<union> set data_source_schemas. LF \<notin> set n\<close>
  shows \<open>let content = script_text resource_schemas data_source_schemas
         in map script_seen (new_calls s (generate_terraform_tags_for_provider env provider_spec
               provider_version resource_schemas data_source_schemas s))
              = [(ctags_invocation env provider_spec provider_version, Some content)]
          \<and> (\<forall>r \<in> set resource_schemas. count_list (physical_lines content) (resource_line r) = 1)
          \<and> (\<forall>d \<in> set data_source_schemas. count_list (physical_lines content) (data_line d) = 1)
          \<and> set (physical_lines content)
               = resource_line ` set resource_schemas \<union> data_line ` set data_source_schemas
          \<and> length (physical_lines content) = length resource_schemas + length data_source_schemas
          \<and> (\<forall>n. resource_line n = ''resource "'' @ n @ ''" "'' @ n @ ''" {}'' @ [CHR 0x0A]
                \<and> data_line n = ''data "'' @ n @ ''" "'' @ n @ ''" {}'' @ [CHR 0x0A])\<close>
proof -
  let ?ls = "map resource_line resource_schemas @ map data_line data_source_schemas"
  let ?content = "script_text resource_schemas data_source_schemas"
  have lines: "physical_lines ?content = ?ls"
    using assms(3) by (rule script_lines)
  have seen: "map script_seen (new_calls s (generate_terraform_tags_for_provider env provider_spec
               provider_version resource_schemas data_source_schemas s))
              = [(ctags_invocation env provider_spec provider_version, Some ?content)]"
    by (simp add: new_calls_provider script_seen_def)
  have res: "count_list (physical_lines ?content) (resource_line r) = 1"
    if "r \<in> set resource_schemas" for r
  proof -
    have "count_list (map resource_line resource_schemas) (resource_line r) = 1"
      using assms(1) that by (simp add: count_list_map_inj resource_line_inj count_list_distinct)
    moreover have "count_list (map data_line data_source_schemas) (resource_line r) = 0"
      by (rule count_list_map_absent) (simp add: resource_not_data [symmetric])
    ultimately show ?thesis unfolding lines by simp
  qed
  have dat: "count_list (physical_lines ?content) (data_line d) = 1"
    if "d \<in> set data_source_schemas" for d
  proof -
    have "count_list (map data_line data_source_schemas) (data_line d) = 1"
      using assms(2) that by (simp add: count_list_map_inj data_line_inj count_list_distinct)
    moreover have "count_list (map resource_line resource_schemas) (data_line d) = 0"
      by (rule count_list_map_absent) (simp add: resource_not_data)
    ultimately show ?thesis unfolding lines by simp
  qed
  have shape: \<open>resource_line n = ''resource "'' @ n @ ''" "'' @ n @ ''" {}'' @ [CHR 0x0A]
      \<and> data_line n = ''data "'' @ n @ ''" "'' @ n @ ''" {}'' @ [CHR 0x0A]\<close> for n
    by (simp add: resource_line_def data_line_def LF_def)
  have st: "set (physical_lines ?content)
      = resource_line ` set resource_schemas \<union> data_line ` set data_source_schemas"
    unfolding lines by simp
  have len: "length (physical_lines ?content) = length resource_schemas + length data_source_schemas"
    unfolding lines by simp
  show ?thesis
    unfolding Let_def
  proof (intro conjI ballI allI)
    show "map script_seen (new_calls s (generate_terraform_tags_for_provider env provider_spec
               provider_version resource_schemas data_source_schemas s))
              = [(ctags_invocation env provider_spec provider_version, Some ?content)]"
      by (rule seen)
  next
    fix r assume "r \<in> set resource_schemas"
    then show "count_list (physical_lines ?content) (resource_line r) = 1" by (rule res)
  next
    fix d assume "d \<in> set data_source_schemas"
    then show "count_list (physical_lines ?content) (data_line d) = 1" by (rule dat)
  next
    show "set (physical_lines ?content)
      = resource_line ` set resource_schemas \<union> data_line ` set data_source_schemas"
      by (rule st)
  next
    show "length (physical_lines ?content) = length resource_schemas + length data_source_schemas"
      by (rule len)
  next
    fix n
    show \<open>resource_line n = ''resource "'' @ n @ ''" "'' @ n @ ''" {}'' @ [CHR 0x0A]\<close>
      using shape [of n] by (rule conjunct1)
    show \<open>data_line n = ''data "'' @ n @ ''" "'' @ n @ ''" {}'' @ [CHR 0x0A]\<close>
      using shape [of n] by (rule conjunct2)
  qed
qed

theorem one_line_per_type_name_witness:
  \<open>distinct [''aws_vpc'', ''aws_instance''] \<and> distinct [''aws_ami'']
   \<and> LF \<notin> set ''aws_vpc'' \<and> LF \<notin> set ''aws_instance'' \<and> LF \<notin> set ''aws_ami''
   \<and> map script_seen (new_calls empty_state (generate_terraform_tags_for_provider quiet_env
         ''registry.terraform.io/hashicorp/aws'' (JStr ''6.0.0'')
         [''aws_vpc'', ''aws_instance''] [''aws_ami''] empty_state))
       = [(ctags_invocation quiet_env ''registry.terraform.io/hashicorp/aws'' (JStr ''6.0.0''),
           Some (script_text [''aws_vpc'', ''aws_instance''] [''aws_ami'']))]
   \<and> count_list (physical_lines (script_text [''aws_vpc'', ''aws_instance''] [''aws_ami'']))
         (resource_line ''aws_instance'') = 1
   \<and> count_list (physical_lines (script_text [''aws_vpc'', ''aws_instance''] [''aws_ami'']))
         (data_line ''aws_ami'') = 1
   \<and> length (physical_lines (script_text [''aws_vpc'', ''aws_instance''] [''aws_ami''])) = 3\<close>
proof -
  have d1: "distinct [''aws_vpc'', ''aws_instance'']" and d2: "distinct [''aws_ami'']"
    by simp_all
  have n1: "LF \<notin> set ''aws_vpc''" and n2: "LF \<notin> set ''aws_instance''" and n3: "LF \<notin> set ''aws_ami''"
    by (simp_all add: LF_def)
  have n: "\<forall>n \<in> set [''aws_vpc'', ''aws_instance''] \<union> set [''aws_ami'']. LF \<notin> set n"
    using n1 n2 n3 by simp
  note t = one_line_per_type_name [OF d1 d2 n, of empty_state quiet_env
        "''registry.terraform.io/hashicorp/aws''" "JStr ''6.0.0''", unfolded Let_def]
  note t1 = t [THEN conjunct1]
  have m1: "''aws_instance'' \<in> set [''aws_vpc'', ''aws_instance'']" by simp
  have m2: "''aws_ami'' \<in> set [''aws_ami'']" by simp
  note t2 = t [THEN conjunct2, THEN conjunct1, rule_format, OF m1]
  note t3 = t [THEN conjunct2, THEN conjunct2, THEN conjunct1, rule_format, OF m2]
  have t5: "length (physical_lines (script_text [''aws_vpc'', ''aws_instance''] [''aws_ami''])) = 3"
    using t [THEN conjunct2, THEN conjunct2, THEN conjunct2, THEN conjunct2, THEN conjunct1] by simp
  from d1 d2 n1 n2 n3 t1 t2 t3 t5 show ?thesis by (intro conjI)
qed

text \<open>
  The claim as worded, for every set of names, fails: the names are written as they are, so
  a name that holds a line feed spreads over several lines of the file. With the two
  resource names \<open>a\<close> and \<open>a" "a" {}\<close>, line feed, \<open>resource "a\<close> the file has the line of
  \<open>a\<close> twice.
\<close>

theorem line_feed_in_name_counterexample:
  \<open>distinct [''a'', ''a" "a" {}'' @ [CHR 0x0A] @ ''resource "a'']
   \<and> map script_seen (new_calls empty_state (generate_terraform_tags_for_provider quiet_env
         ''registry.terraform.io/hashicorp/aws'' JNull
         [''a'', ''a" "a" {}'' @ [CHR 0x0A] @ ''resource "a''] [] empty_state))
       = [(ctags_invocation quiet_env ''registry.terraform.io/hashicorp/aws'' JNull,
           Some (''resource "a" "a" {}'' @ [CHR 0x0A]
                 @ ''resource "a" "a" {}'' @ [CHR 0x0A]
                 @ ''resource "a" "a" "a" {}'' @ [CHR 0x0A]
                 @ ''resource "a" {}'' @ [CHR 0x0A]))]
   \<and> physical_lines (''resource "a" "a" {}'' @ [CHR 0x0A]
                 @ ''resource "a" "a" {}'' @ [CHR 0x0A]
                 @ ''resource "a" "a" "a" {}'' @ [CHR 0x0A]
                 @ ''resource "a" {}'' @ [CHR 0x0A])
       = [''resource "a" "a" {}'' @ [CHR 0x0A], ''resource "a" "a" {}'' @ [CHR 0x0A],
          ''resource "a" "a" "a" {}'' @ [CHR 0x0A], ''resource "a" {}'' @ [CHR 0x0A]]
   \<and> resource_line ''a'' = ''resource "a" "a" {}'' @ [CHR 0x0A]
   \<and> count_list (physical_lines (script_text [''a'', ''a" "a" {}'' @ [CHR 0x0A] @ ''resource "a''] []))
         (resource_line ''a'') = 2\<close>
proof -
  have t: \<open>script_text [''a'', ''a" "a" {}'' @ [CHR 0x0A] @ ''resource "a''] []
      = ''resource "a" "a" {}'' @ [CHR 0x0A]
                 @ ''resource "a" "a" {}'' @ [CHR 0x0A]
                 @ ''resource "a" "a" "a" {}'' @ [CHR 0x0A]
                 @ ''resource "a" {}'' @ [CHR 0x0A]\<close>
    by (simp add: script_text_eq resource_line_def LF_def)
  have p: \<open>physical_lines (''resource "a" "a" {}'' @ [CHR 0x0A]
                 @ ''resource "a" "a" {}'' @ [CHR 0x0A]
                 @ ''resource "a" "a" "a" {}'' @ [CHR 0x0A]
                 @ ''resource "a" {}'' @ [CHR 0x0A])
       = [''resource "a" "a" {}'' @ [CHR 0x0A], ''resource "a" "a" {}'' @ [CHR 0x0A],
          ''resource "a" "a" "a" {}'' @ [CHR 0x0A], ''resource "a" {}'' @ [CHR 0x0A]]\<close>
    by (simp add: physical_lines_def LF_def)
  have l: \<open>resource_line ''a'' = ''resource "a" "a" {}'' @ [CHR 0x0A]\<close>
    by (simp add: resource_line_def LF_def)
  have d: \<open>distinct [''a'', ''a" "a" {}'' @ [CHR 0x0A] @ ''resource "a'']\<close>
    by simp
  have s: \<open>map script_seen (new_calls empty_state (generate_terraform_tags_for_provider quiet_env
         ''registry.terraform.io/hashicorp/aws'' JNull
         [''a'', ''a" "a" {}'' @ [CHR 0x0A] @ ''resource "a''] [] empty_state))
       = [(ctags_invocation quiet_env ''registry.terraform.io/hashicorp/aws'' JNull,
           Some (''resource "a" "a" {}'' @ [CHR 0x0A]
                 @ ''resource "a" "a" {}'' @ [CHR 0x0A]
                 @ ''resource "a" "a" "a" {}'' @ [CHR 0x0A]
                 @ ''resource "a" {}'' @ [CHR 0x0A]))]\<close>
    unfolding new_calls_provider t [symmetric] by (simp add: script_seen_def)
  have c: \<open>count_list (physical_lines (script_text [''a'', ''a" "a" {}'' @ [CHR 0x0A] @ ''resource "a''] []))
         (resource_line ''a'') = 2\<close>
    unfolding t p l by simp
  from d s p l c show ?thesis by (intro conjI)
qed

section \<open>Outcomes and the log of invocations\<close>

lemma provider_outcome:
  assumes "run_process env (ctags_invocation env spec v)
             ((files s)(script_file \<mapsto> script_text rs ds)) (ext s) = (rc, fs', x')"
  shows "generate_terraform_tags_for_provider env spec v rs ds s =
     (let s2 = s\<lparr>files := fs', ext := x',
                 calls := calls s @ [(ctags_invocation env spec v,
                                      (files s)(script_file \<mapsto> script_text rs ds))]\<rparr>
      in if rc \<noteq> 0 then Raised (CalledProcessError rc (argv (ctags_invocation env spec v))) s2
         else if fs' script_file = None then Raised (FileNotFoundError script_file) s2
         else Done (s2\<lparr>files := fs'(script_file := None)\<rparr>))"
proof -
  let ?s1 = "s\<lparr>files := (files s)(script_file \<mapsto> script_text rs ds)\<rparr>"
  have r: "run_process env (ctags_invocation env spec v) (files ?s1) (ext ?s1) = (rc, fs', x')"
    using assms by simp
  have cc: "check_call env (ctags_invocation env spec v) (close_file script_file (script_text rs ds) s) =
    (if rc = 0 then Done (?s1\<lparr>files := fs', ext := x', calls := calls ?s1 @ [(ctags_invocation env spec v, files ?s1)]\<rparr>)
     else Raised (CalledProcessError rc (argv (ctags_invocation env spec v))) (?s1\<lparr>files := fs', ext := x', calls := calls ?s1 @ [(ctags_invocation env spec v, files ?s1)]\<rparr>))"
    unfolding close_file_def by (rule check_call_cases [OF r])
  have g: "generate_terraform_tags_for_provider env spec v rs ds s =
     (case check_call env (ctags_invocation env spec v) (close_file script_file (script_text rs ds) s) of
           Raised e s2 \<Rightarrow> Raised e s2
         | Done s2 \<Rightarrow> unlink script_file s2)"
    unfolding generate_terraform_tags_for_provider_def Let_def script_file_def by (rule refl)
  show ?thesis
    unfolding g cc by (simp add: unlink_def Let_def split: option.splits)
qed

lemma new_calls_same: "new_calls s (Raised e s) = []" "new_calls s (Done s) = []"
  by (simp_all add: new_calls_def)

lemma entry_cases:
  "(\<exists>e. tags_for_entry env pv entry s = Raised e s) \<or>
   (\<exists>rs ds. section_keys (snd entry) ''resource_schemas'' = Inr rs
       \<and> section_keys (snd entry) ''data_source_schemas'' = Inr ds
       \<and> tags_for_entry env pv entry s =
           generate_terraform_tags_for_provider env (fst entry) (versions_get pv (fst entry)) rs ds s)"
proof (cases entry)
  case (Pair spec schema)
  show ?thesis
  proof (cases "section_keys schema ''resource_schemas''")
    case (Inl e)
    with Pair show ?thesis by (simp add: tags_for_entry_def)
  next
    case rs: (Inr rs)
    show ?thesis
    proof (cases "section_keys schema ''data_source_schemas''")
      case (Inl e)
      with Pair rs show ?thesis by (simp add: tags_for_entry_def)
    next
      case (Inr ds)
      with Pair rs show ?thesis by (simp add: tags_for_entry_def)
    qed
  qed
qed

lemma entry_seen_provider:
  assumes "section_keys (snd entry) ''resource_schemas'' = Inr rs"
      and "section_keys (snd entry) ''data_source_schemas'' = Inr ds"
  shows "map script_seen (new_calls s (generate_terraform_tags_for_provider env (fst entry)
            (versions_get pv (fst entry)) rs ds s)) = [entry_seen env pv entry]"
  using assms by (simp add: new_calls_provider script_seen_def entry_seen_def keys_or_empty_def)

lemma entry_new_calls:
  "new_calls s (tags_for_entry env pv entry s) = [] \<or>
   map script_seen (new_calls s (tags_for_entry env pv entry s)) = [entry_seen env pv entry]"
  using entry_cases [of env pv entry s]
proof (elim disjE exE conjE)
  fix e assume "tags_for_entry env pv entry s = Raised e s"
  then show ?thesis by (simp add: new_calls_same)
next
  fix rs ds
  assume a: "section_keys (snd entry) ''resource_schemas'' = Inr rs"
    "section_keys (snd entry) ''data_source_schemas'' = Inr ds"
    "tags_for_entry env pv entry s =
       generate_terraform_tags_for_provider env (fst entry) (versions_get pv (fst entry)) rs ds s"
  show ?thesis unfolding a(3) using entry_seen_provider [OF a(1,2)] by (rule disjI2)
qed

lemma entry_calls_prefix:
  "calls (state_of (tags_for_entry env pv entry s)) = calls s @ new_calls s (tags_for_entry env pv entry s)"
  using entry_cases [of env pv entry s]
proof (elim disjE exE conjE)
  fix e assume "tags_for_entry env pv entry s = Raised e s"
  then show ?thesis by (simp add: new_calls_same)
next
  fix rs ds
  assume a: "tags_for_entry env pv entry s =
       generate_terraform_tags_for_provider env (fst entry) (versions_get pv (fst entry)) rs ds s"
  show ?thesis unfolding a by (simp add: new_calls_provider provider_calls)
qed

lemma entry_Done_calls:
  assumes "tags_for_entry env pv entry s = Done s'"
  shows "map script_seen (new_calls s (tags_for_entry env pv entry s)) = [entry_seen env pv entry]"
  using entry_cases [of env pv entry s]
proof (elim disjE exE conjE)
  fix e assume "tags_for_entry env pv entry s = Raised e s"
  with assms show ?thesis by simp
next
  fix rs ds
  assume a: "section_keys (snd entry) ''resource_schemas'' = Inr rs"
    "section_keys (snd entry) ''data_source_schemas'' = Inr ds"
    "tags_for_entry env pv entry s =
       generate_terraform_tags_for_provider env (fst entry) (versions_get pv (fst entry)) rs ds s"
  show ?thesis unfolding a(3) using a(1,2) by (rule entry_seen_provider)
qed

lemma loop_calls_prefix:
  "calls (state_of (tags_loop env pv entries s)) = calls s @ new_calls s (tags_loop env pv entries s)"
proof (induction entries arbitrary: s)
  case Nil
  then show ?case by (simp add: new_calls_def)
next
  case (Cons entry rest)
  show ?case
  proof (cases "tags_for_entry env pv entry s")
    case (Raised e s')
    with entry_calls_prefix [of env pv entry s] show ?thesis by (simp add: new_calls_def)
  next
    case (Done s')
    have a: "calls s' = calls s @ new_calls s (Done s')"
      using entry_calls_prefix [of env pv entry s] Done by simp
    have b: "calls (state_of (tags_loop env pv rest s')) = calls s' @ new_calls s' (tags_loop env pv rest s')"
      by (rule Cons.IH)
    have "calls (state_of (tags_loop env pv rest s')) =
        calls s @ (new_calls s (Done s') @ new_calls s' (tags_loop env pv rest s'))"
      by (subst b, subst a) simp
    then have "calls (state_of (tags_loop env pv rest s')) =
        calls s @ new_calls s (tags_loop env pv rest s')"
      by (simp add: new_calls_def [of s "tags_loop env pv rest s'"])
    with Done show ?thesis by simp
  qed
qed

lemma loop_new_calls_Done:
  assumes "tags_for_entry env pv entry s = Done s'"
  shows "new_calls s (tags_loop env pv (entry # rest) s) =
     new_calls s (tags_for_entry env pv entry s) @ new_calls s' (tags_loop env pv rest s')"
proof -
  have a: "calls s' = calls s @ new_calls s (Done s')"
    using entry_calls_prefix [of env pv entry s] assms by simp
  have b: "calls (state_of (tags_loop env pv rest s')) = calls s' @ new_calls s' (tags_loop env pv rest s')"
    by (rule loop_calls_prefix)
  have "calls (state_of (tags_loop env pv rest s')) =
      calls s @ (new_calls s (Done s') @ new_calls s' (tags_loop env pv rest s'))"
    by (subst b, subst a) simp
  then have "new_calls s (tags_loop env pv rest s') =
      new_calls s (Done s') @ new_calls s' (tags_loop env pv rest s')"
    by (simp add: new_calls_def [of s "tags_loop env pv rest s'"])
  with assms show ?thesis by simp
qed

lemma loop_new_calls_Raised:
  assumes "tags_for_entry env pv entry s = Raised e s'"
  shows "new_calls s (tags_loop env pv (entry # rest) s) = new_calls s (tags_for_entry env pv entry s)"
  using assms by simp

lemma loop_trace:
  "\<exists>k \<le> length entries.
     map script_seen (new_calls s (tags_loop env pv entries s)) = take k (map (entry_seen env pv) entries)
     \<and> ((\<exists>s'. tags_loop env pv entries s = Done s') \<longrightarrow> k = length entries)"
proof (induction entries arbitrary: s)
  case Nil
  then show ?case by (simp add: new_calls_def)
next
  case (Cons entry rest)
  show ?case
  proof (cases "tags_for_entry env pv entry s")
    case (Raised e s')
    have nc: "new_calls s (tags_loop env pv (entry # rest) s) = new_calls s (tags_for_entry env pv entry s)"
      using Raised by (rule loop_new_calls_Raised)
    have nd: "\<not> (\<exists>t. tags_loop env pv (entry # rest) s = Done t)"
      using Raised by simp
    from entry_new_calls [of s env pv entry] show ?thesis
    proof
      assume "new_calls s (tags_for_entry env pv entry s) = []"
      then have "map script_seen (new_calls s (tags_loop env pv (entry # rest) s)) =
          take 0 (map (entry_seen env pv) (entry # rest))"
        unfolding nc by simp
      with nd show ?thesis by blast
    next
      assume "map script_seen (new_calls s (tags_for_entry env pv entry s)) = [entry_seen env pv entry]"
      then have "map script_seen (new_calls s (tags_loop env pv (entry # rest) s)) =
          take 1 (map (entry_seen env pv) (entry # rest))"
        unfolding nc by simp
      moreover have "(1::nat) \<le> length (entry # rest)" by simp
      ultimately show ?thesis using nd by blast
    qed
  next
    case (Done s')
    from Cons.IH [of s'] obtain k where k: "k \<le> length rest"
      "map script_seen (new_calls s' (tags_loop env pv rest s')) = take k (map (entry_seen env pv) rest)"
      "(\<exists>t. tags_loop env pv rest s' = Done t) \<longrightarrow> k = length rest" by blast
    have "map script_seen (new_calls s (tags_loop env pv (entry # rest) s)) =
        take (Suc k) (map (entry_seen env pv) (entry # rest))"
      unfolding loop_new_calls_Done [OF Done] using entry_Done_calls [OF Done] k(2) by simp
    moreover have "Suc k \<le> length (entry # rest)" using k(1) by simp
    moreover have "(\<exists>t. tags_loop env pv (entry # rest) s = Done t) \<longrightarrow> Suc k = length (entry # rest)"
      using k(3) Done by simp
    ultimately show ?thesis by blast
  qed
qed

section \<open>The provider name\<close>

text \<open>
  C2, as the code has it: the provider name is the provider spec with every occurrence of
  \<open>registry.terraform.io/\<close> removed (found from left to right, wherever it stands), and then
  every \<open>/\<close> replaced by \<open>_\<close>, so that no \<open>/\<close> is left. For a provider spec in which the
  registry host occurs nowhere but possibly once at the very start, this is the name the
  specification words: one leading occurrence stripped, every remaining \<open>/\<close> replaced. In
  particular \<open>registry.terraform.io/hashicorp/aws\<close> gives \<open>hashicorp_aws\<close>.
\<close>

theorem provider_name_removes_every_occurrence:
  "provider_name provider_spec =
     map (\<lambda>c. if c = CHR ''/'' then CHR ''_'' else c)
       (replace provider_spec ''registry.terraform.io/'' [])
   \<and> CHR ''/'' \<notin> set (provider_name provider_spec)
   \<and> (\<not> contains (strip_leading provider_spec ''registry.terraform.io/'') ''registry.terraform.io/''
        \<longrightarrow> provider_name provider_spec = spec_provider_name provider_spec)
   \<and> provider_name ''registry.terraform.io/hashicorp/aws'' = ''hashicorp_aws''"
proof -
  have a: "provider_name provider_spec =
     map (\<lambda>c. if c = CHR ''/'' then CHR ''_'' else c)
       (replace provider_spec ''registry.terraform.io/'' [])"
    by (rule provider_name_map)
  have b: "CHR ''/'' \<notin> set (provider_name provider_spec)"
    unfolding a by auto
  have c: "provider_name provider_spec = spec_provider_name provider_spec"
    if "\<not> contains (strip_leading provider_spec ''registry.terraform.io/'') ''registry.terraform.io/''"
    using that unfolding a spec_provider_name_def
    by (auto simp: strip_leading_def replace_leading replace_absent)
  have d: "provider_name ''registry.terraform.io/hashicorp/aws'' = ''hashicorp_aws''"
    by (simp add: provider_name_def)
  from a b c d show ?thesis by blast
qed

theorem provider_name_removes_every_occurrence_witness:
  "\<not> contains (strip_leading ''registry.terraform.io/hashicorp/dns'' ''registry.terraform.io/'')
       ''registry.terraform.io/''
   \<and> provider_name ''registry.terraform.io/hashicorp/dns'' = ''hashicorp_dns''
   \<and> spec_provider_name ''registry.terraform.io/hashicorp/dns'' = ''hashicorp_dns''"
proof -
  have h: "\<not> contains (strip_leading ''registry.terraform.io/hashicorp/dns'' ''registry.terraform.io/'')
       ''registry.terraform.io/''"
    by (simp add: strip_leading_def)
  have s: "spec_provider_name ''registry.terraform.io/hashicorp/dns'' = ''hashicorp_dns''"
    by (simp add: spec_provider_name_def strip_leading_def)
  from provider_name_removes_every_occurrence [of "''registry.terraform.io/hashicorp/dns''"] h
  have "provider_name ''registry.terraform.io/hashicorp/dns'' =
      spec_provider_name ''registry.terraform.io/hashicorp/dns''"
    by blast
  with h s show ?thesis by simp
qed

text \<open>
  The claim as worded, "exactly one leading occurrence is stripped", fails where the registry
  host occurs a second time or not at the start: the code removes those occurrences too.
\<close>

theorem provider_name_one_leading_counterexample:
  "provider_name ''registry.terraform.io/registry.terraform.io/aws'' = ''aws''
   \<and> spec_provider_name ''registry.terraform.io/registry.terraform.io/aws'' = ''registry.terraform.io_aws''
   \<and> provider_name ''example.com/registry.terraform.io/aws'' = ''example.com_aws''
   \<and> spec_provider_name ''example.com/registry.terraform.io/aws'' = ''example.com_registry.terraform.io_aws''"
  by (simp add: provider_name_def spec_provider_name_def strip_leading_def)

section \<open>Order of the declarations\<close>

text \<open>
  C10: for one entry of \<open>provider_schemas\<close>, the file shown to the tag tool holds the resource
  declarations first and the data-source declarations after them, each group in the order
  in which the keys of its section are iterated, which is the order of the entries of the
  section in the parsed schema.
\<close>

theorem resources_before_data_sources:
  assumes "section_keys provider_schema ''resource_schemas'' = Inr resource_schemas"
      and "section_keys provider_schema ''data_source_schemas'' = Inr data_source_schemas"
  shows "map (snd \<circ> script_seen) (new_calls s
           (tags_for_entry env provider_versions (provider_spec, provider_schema) s))
         = [Some (concat (map resource_line resource_schemas)
                  @ concat (map data_line data_source_schemas))]
       \<and> (\<forall>p r d. provider_schema = JObj p \<longrightarrow> map_of p ''resource_schemas'' = Some (JObj r)
              \<longrightarrow> map_of p ''data_source_schemas'' = Some (JObj d)
              \<longrightarrow> resource_schemas = map fst r \<and> data_source_schemas = map fst d)"
proof -
  have "tags_for_entry env provider_versions (provider_spec, provider_schema) s =
      generate_terraform_tags_for_provider env provider_spec
        (versions_get provider_versions provider_spec) resource_schemas data_source_schemas s"
    using assms by (simp add: tags_for_entry_def)
  then have a: "map (snd \<circ> script_seen) (new_calls s
           (tags_for_entry env provider_versions (provider_spec, provider_schema) s))
         = [Some (concat (map resource_line resource_schemas)
                  @ concat (map data_line data_source_schemas))]"
    by (simp add: new_calls_provider script_seen_def script_text_eq)
  have b: "resource_schemas = map fst r \<and> data_source_schemas = map fst d"
    if "provider_schema = JObj p" "map_of p ''resource_schemas'' = Some (JObj r)"
      "map_of p ''data_source_schemas'' = Some (JObj d)" for p r d
    using assms that by (simp add: section_keys_def)
  from a b show ?thesis by blast
qed

theorem resources_before_data_sources_witness:
  \<open>section_keys (JObj [(''resource_schemas'', JObj [(''dns_cname_record'', JObj []), (''dns_a_record_set'', JObj [])]),
                       (''data_source_schemas'', JObj [(''dns_txt_record_set'', JObj [])])])
       ''resource_schemas'' = Inr [''dns_cname_record'', ''dns_a_record_set'']
   \<and> section_keys (JObj [(''resource_schemas'', JObj [(''dns_cname_record'', JObj []), (''dns_a_record_set'', JObj [])]),
                       (''data_source_schemas'', JObj [(''dns_txt_record_set'', JObj [])])])
       ''data_source_schemas'' = Inr [''dns_txt_record_set'']
   \<and> map (snd \<circ> script_seen) (new_calls empty_state
         (tags_for_entry quiet_env Map.empty
            (''registry.terraform.io/hashicorp/dns'',
             JObj [(''resource_schemas'', JObj [(''dns_cname_record'', JObj []), (''dns_a_record_set'', JObj [])]),
                   (''data_source_schemas'', JObj [(''dns_txt_record_set'', JObj [])])])
            empty_state))
       = [Some (''resource "dns_cname_record" "dns_cname_record" {}'' @ [LF]
                @ ''resource "dns_a_record_set" "dns_a_record_set" {}'' @ [LF]
                @ ''data "dns_txt_record_set" "dns_txt_record_set" {}'' @ [LF])]\<close>
proof -
  let ?schema = "JObj [(''resource_schemas'', JObj [(''dns_cname_record'', JObj []), (''dns_a_record_set'', JObj [])]),
                       (''data_source_schemas'', JObj [(''dns_txt_record_set'', JObj [])])]"
  have r: "section_keys ?schema ''resource_schemas'' = Inr [''dns_cname_record'', ''dns_a_record_set'']"
    by (simp add: section_keys_def)
  have d: "section_keys ?schema ''data_source_schemas'' = Inr [''dns_txt_record_set'']"
    by (simp add: section_keys_def)
  note t = resources_before_data_sources [OF r d, of empty_state quiet_env Map.empty
        "''registry.terraform.io/hashicorp/dns''", THEN conjunct1]
  have c: \<open>concat (map resource_line [''dns_cname_record'', ''dns_a_record_set''])
        @ concat (map data_line [''dns_txt_record_set''])
      = ''resource "dns_cname_record" "dns_cname_record" {}'' @ [LF]
                @ ''resource "dns_a_record_set" "dns_a_record_set" {}'' @ [LF]
                @ ''data "dns_txt_record_set" "dns_txt_record_set" {}'' @ [LF]\<close>
    by (simp add: resource_line_def data_line_def)
  from r d t [unfolded c] show ?thesis by (intro conjI)
qed

section \<open>Cleanup\<close>

text \<open>
  C5: when the per-provider generator completes, the synthetic configuration file does not
  exist any more. It completes whenever the tag tool exits with 0 and leaves the file in
  place, and the state is then the one the tool left, without the file. With no resource and
  no data-source schema the text written is empty; the file is still written (the tag tool
  is shown an existing, empty file) and still removed.
\<close>

theorem synthetic_file_removed:
  "(generate_terraform_tags_for_provider env provider_spec provider_version
        resource_schemas data_source_schemas s = Done s' \<longrightarrow> files s' script_file = None)
   \<and> (run_process env (ctags_invocation env provider_spec provider_version)
          ((files s)(script_file \<mapsto> script_text resource_schemas data_source_schemas)) (ext s)
          = (0, fs', x') \<longrightarrow> fs' script_file \<noteq> None \<longrightarrow>
        generate_terraform_tags_for_provider env provider_spec provider_version
          resource_schemas data_source_schemas s
        = Done (s\<lparr>files := fs'(script_file := None), ext := x',
                   calls := calls s @ [(ctags_invocation env provider_spec provider_version,
                     (files s)(script_file \<mapsto> script_text resource_schemas data_source_schemas))]\<rparr>))
   \<and> script_text [] [] = []
   \<and> map script_seen (new_calls s (generate_terraform_tags_for_provider env provider_spec
          provider_version [] [] s))
       = [(ctags_invocation env provider_spec provider_version, Some [])]"
proof -
  have a: "files s' script_file = None"
    if "generate_terraform_tags_for_provider env provider_spec provider_version
        resource_schemas data_source_schemas s = Done s'"
    using that by (rule provider_Done)
  have b: "generate_terraform_tags_for_provider env provider_spec provider_version
          resource_schemas data_source_schemas s
        = Done (s\<lparr>files := fs'(script_file := None), ext := x',
                   calls := calls s @ [(ctags_invocation env provider_spec provider_version,
                     (files s)(script_file \<mapsto> script_text resource_schemas data_source_schemas))]\<rparr>)"
    if "run_process env (ctags_invocation env provider_spec provider_version)
          ((files s)(script_file \<mapsto> script_text resource_schemas data_source_schemas)) (ext s)
          = (0, fs', x')" "fs' script_file \<noteq> None"
    using that(2) by (simp add: provider_outcome [OF that(1)] Let_def)
  have c: "script_text [] [] = []"
    by (simp add: script_text_def)
  have d: "map script_seen (new_calls s (generate_terraform_tags_for_provider env provider_spec
          provider_version [] [] s))
       = [(ctags_invocation env provider_spec provider_version, Some [])]"
    by (simp add: new_calls_provider script_seen_def c)
  from a b c d show ?thesis by blast
qed

theorem synthetic_file_removed_witness:
  "run_process quiet_env (ctags_invocation quiet_env ''registry.terraform.io/hashicorp/null'' JNull)
       ((files empty_state)(script_file \<mapsto> script_text [] [])) (ext empty_state)
     = (0, (files empty_state)(script_file \<mapsto> []), ())
   \<and> ((files empty_state)(script_file \<mapsto> [])) script_file \<noteq> None
   \<and> generate_terraform_tags_for_provider quiet_env ''registry.terraform.io/hashicorp/null'' JNull
         [] [] empty_state
     = Done (empty_state\<lparr>files := ((files empty_state)(script_file \<mapsto> []))(script_file := None),
               ext := (),
               calls := calls empty_state @
                 [(ctags_invocation quiet_env ''registry.terraform.io/hashicorp/null'' JNull,
                   (files empty_state)(script_file \<mapsto> script_text [] []))]\<rparr>)
   \<and> files (state_of (generate_terraform_tags_for_provider quiet_env
         ''registry.terraform.io/hashicorp/null'' JNull [] [] empty_state)) script_file = None"
proof -
  have r: "run_process quiet_env (ctags_invocation quiet_env ''registry.terraform.io/hashicorp/null'' JNull)
       ((files empty_state)(script_file \<mapsto> script_text [] [])) (ext empty_state)
     = (0, (files empty_state)(script_file \<mapsto> []), ())"
    by (simp add: quiet_env_def script_text_def)
  have n: "((files empty_state)(script_file \<mapsto> [])) script_file \<noteq> None"
    by simp
  note t = synthetic_file_removed [of quiet_env "''registry.terraform.io/hashicorp/null''" JNull "[]" "[]"
      empty_state _ "(files empty_state)(script_file \<mapsto> [])" "()"]
  note g = t [THEN conjunct2, THEN conjunct1, THEN mp, OF r, THEN mp, OF n]
  have f: "files (state_of (generate_terraform_tags_for_provider quiet_env
         ''registry.terraform.io/hashicorp/null'' JNull [] [] empty_state)) script_file = None"
    unfolding g by simp
  from r n g f show ?thesis by (intro conjI)
qed

section \<open>The lock file\<close>

lemma dict_get_Inr: "dict_get j k d = Inr v \<Longrightarrow> \<exists>e. j = JObj e \<and> v = (case map_of e k of None \<Rightarrow> d | Some w \<Rightarrow> w)"
  by (cases j) auto

lemma versions_loop_absent:
  "provider_versions_loop entries pv0 = Inr pv \<Longrightarrow> spec \<notin> fst ` set entries \<Longrightarrow> pv spec = pv0 spec"
proof (induction entries arbitrary: pv0)
  case Nil
  then show ?case by simp
next
  case (Cons entry rest)
  obtain k data where entry: "entry = (k, data)" by (cases entry)
  from Cons.prems(1) entry obtain v where v: "dict_get data ''version'' JNull = Inr v"
    and rest: "provider_versions_loop rest (pv0(k \<mapsto> v)) = Inr pv"
    by (auto split: sum.splits)
  from Cons.prems(2) entry have "spec \<noteq> k" "spec \<notin> fst ` set rest" by auto
  with Cons.IH [OF rest] show ?case by simp
qed

lemma versions_loop_present:
  "provider_versions_loop entries pv0 = Inr pv \<Longrightarrow> distinct (map fst entries) \<Longrightarrow>
   (spec, data) \<in> set entries \<Longrightarrow>
   \<exists>e. data = JObj e \<and> pv spec = Some (case map_of e ''version'' of None \<Rightarrow> JNull | Some v \<Rightarrow> v)"
proof (induction entries arbitrary: pv0)
  case Nil
  then show ?case by simp
next
  case (Cons entry rest)
  obtain k d where entry: "entry = (k, d)" by (cases entry)
  from Cons.prems(1) entry obtain v where v: "dict_get d ''version'' JNull = Inr v"
    and rest: "provider_versions_loop rest (pv0(k \<mapsto> v)) = Inr pv"
    by (auto split: sum.splits)
  show ?case
  proof (cases "(spec, data) = (k, d)")
    case True
    from Cons.prems(2) entry have "k \<notin> fst ` set rest" by simp
    from versions_loop_absent [OF rest this] have "pv k = Some v" by simp
    moreover from dict_get_Inr [OF v] obtain e where "d = JObj e"
      "v = (case map_of e ''version'' of None \<Rightarrow> JNull | Some w \<Rightarrow> w)" by blast
    ultimately show ?thesis using True by simp
  next
    case False
    with Cons.prems(3) entry have "(spec, data) \<in> set rest" by auto
    moreover from Cons.prems(2) have "distinct (map fst rest)" by simp
    ultimately show ?thesis using Cons.IH [OF rest] by blast
  qed
qed

lemma versions_loop_dom:
  "provider_versions_loop entries pv0 = Inr pv \<Longrightarrow> dom pv = dom pv0 \<union> fst ` set entries"
proof (induction entries arbitrary: pv0)
  case Nil
  then show ?case by simp
next
  case (Cons entry rest)
  obtain k d where entry: "entry = (k, d)" by (cases entry)
  from Cons.prems(1) entry obtain v where
    rest: "provider_versions_loop rest (pv0(k \<mapsto> v)) = Inr pv"
    by (auto split: sum.splits)
  from Cons.IH [OF rest] entry show ?case by auto
qed

lemma read_provider_versions_loop:
  assumes "files s lock_file = Some txt" and "hcl_load env txt = Some lockfile_contents"
      and "dict_get lockfile_contents ''provider'' (JObj []) = Inr (JObj entries)"
  shows "read_provider_versions env s = provider_versions_loop entries Map.empty"
  using assms by (simp add: read_provider_versions_def read_file_def lock_file_def)

lemma output_filename_unknown:
  "output_filename env spec JNull = Div WORKING_DIRECTORY (provider_name spec @ ''-unknown.hcl.tags'')"
  by (simp add: output_filename_def)

lemma tags_for_entry_eq:
  assumes "section_keys provider_schema ''resource_schemas'' = Inr rs"
      and "section_keys provider_schema ''data_source_schemas'' = Inr ds"
  shows "tags_for_entry env pv (spec, provider_schema) s =
     generate_terraform_tags_for_provider env spec (versions_get pv spec) rs ds s"
  using assms by (simp add: tags_for_entry_def)

text \<open>
  C7, as the code has it: the versions are read from the \<open>version\<close> field of each entry
  under \<open>provider\<close>, and every entry gets a key in the dictionary. An entry without a
  \<open>version\<close> field is stored with the value \<open>None\<close> (it is not left out); looking it up
  gives \<open>None\<close>, as looking up a provider that the lock file does not name does. No default
  is stored: the token \<open>unknown\<close> comes in only when the tag file is named.
\<close>

theorem lock_versions_keep_none:
  assumes "files s lock_file = Some txt" and "hcl_load env txt = Some lockfile_contents"
      and "dict_get lockfile_contents ''provider'' (JObj []) = Inr (JObj entries)"
      and "distinct (map fst entries)"
      and "read_provider_versions env s = Inr provider_versions"
  shows "dom provider_versions = fst ` set entries
     \<and> (\<forall>spec data. (spec, data) \<in> set entries \<longrightarrow>
           (\<exists>e. data = JObj e \<and> provider_versions spec =
                  Some (case map_of e ''version'' of None \<Rightarrow> JNull | Some v \<Rightarrow> v)))
     \<and> (\<forall>spec e. (spec, JObj e) \<in> set entries \<longrightarrow> map_of e ''version'' = None \<longrightarrow>
           provider_versions spec = Some JNull \<and> versions_get provider_versions spec = JNull)
     \<and> (\<forall>spec. spec \<notin> fst ` set entries \<longrightarrow>
           provider_versions spec = None \<and> versions_get provider_versions spec = JNull)
     \<and> (\<forall>spec. output_filename env spec JNull =
           Div WORKING_DIRECTORY (provider_name spec @ ''-unknown.hcl.tags''))"
proof -
  have loop: "provider_versions_loop entries Map.empty = Inr provider_versions"
    using read_provider_versions_loop [OF assms(1-3)] assms(5) by simp
  have a: "dom provider_versions = fst ` set entries"
    using versions_loop_dom [OF loop] by simp
  have b: "\<exists>e. data = JObj e \<and> provider_versions spec =
                  Some (case map_of e ''version'' of None \<Rightarrow> JNull | Some v \<Rightarrow> v)"
    if "(spec, data) \<in> set entries" for spec data
    using versions_loop_present [OF loop assms(4) that] .
  have c: "provider_versions spec = Some JNull \<and> versions_get provider_versions spec = JNull"
    if "(spec, JObj e) \<in> set entries" "map_of e ''version'' = None" for spec e
    using b [OF that(1)] that(2) by (simp add: versions_get_def)
  have d: "provider_versions spec = None \<and> versions_get provider_versions spec = JNull"
    if "spec \<notin> fst ` set entries" for spec
    using versions_loop_absent [OF loop that] by (simp add: versions_get_def)
  show ?thesis
  proof (intro conjI allI impI)
    show "dom provider_versions = fst ` set entries" by (rule a)
  next
    fix spec data assume "(spec, data) \<in> set entries"
    then show "\<exists>e. data = JObj e \<and> provider_versions spec =
                  Some (case map_of e ''version'' of None \<Rightarrow> JNull | Some v \<Rightarrow> v)"
      by (rule b)
  next
    fix spec e assume h: "(spec, JObj e) \<in> set entries" "map_of e ''version'' = None"
    from c [OF h] show "provider_versions spec = Some JNull" by (rule conjunct1)
    from c [OF h] show "versions_get provider_versions spec = JNull" by (rule conjunct2)
  next
    fix spec assume h: "spec \<notin> fst ` set entries"
    from d [OF h] show "provider_versions spec = None" by (rule conjunct1)
    from d [OF h] show "versions_get provider_versions spec = JNull" by (rule conjunct2)
  next
    fix spec
    show "output_filename env spec JNull =
           Div WORKING_DIRECTORY (provider_name spec @ ''-unknown.hcl.tags'')"
      by (rule output_filename_unknown)
  qed
qed

lemma input_state_files:
  "files input_state lock_file = Some ''lock''"
  "files input_state schemas_file = Some ''schemas''"
  by (simp_all add: input_state_def lock_file_def schemas_file_def TERRAFORM_SCHEMAS_FILENAME_def)

theorem lock_versions_keep_none_witness:
  "files input_state lock_file = Some ''lock''
   \<and> hcl_load (tool_env (\<lambda>c. 0)
         (JObj [(''provider'', JObj [(''registry.terraform.io/hashicorp/dns'', JObj [(''version'', JStr ''3.2.4'')]),
                                     (''registry.terraform.io/hashicorp/aws'', JObj [])])]) JNull) ''lock''
       = Some (JObj [(''provider'', JObj [(''registry.terraform.io/hashicorp/dns'', JObj [(''version'', JStr ''3.2.4'')]),
                                          (''registry.terraform.io/hashicorp/aws'', JObj [])])])
   \<and> distinct (map fst [(''registry.terraform.io/hashicorp/dns'', JObj [(''version'', JStr ''3.2.4'')]),
                         (''registry.terraform.io/hashicorp/aws'', JObj [])])
   \<and> read_provider_versions (tool_env (\<lambda>c. 0)
         (JObj [(''provider'', JObj [(''registry.terraform.io/hashicorp/dns'', JObj [(''version'', JStr ''3.2.4'')]),
                                     (''registry.terraform.io/hashicorp/aws'', JObj [])])]) JNull) input_state
       = Inr [''registry.terraform.io/hashicorp/dns'' \<mapsto> JStr ''3.2.4'',
              ''registry.terraform.io/hashicorp/aws'' \<mapsto> JNull]
   \<and> [''registry.terraform.io/hashicorp/dns'' \<mapsto> JStr ''3.2.4'',
        ''registry.terraform.io/hashicorp/aws'' \<mapsto> JNull] ''registry.terraform.io/hashicorp/aws'' = Some JNull
   \<and> versions_get [''registry.terraform.io/hashicorp/dns'' \<mapsto> JStr ''3.2.4'',
        ''registry.terraform.io/hashicorp/aws'' \<mapsto> JNull] ''registry.terraform.io/hashicorp/aws'' = JNull"
proof -
  let ?entries = "[(''registry.terraform.io/hashicorp/dns'', JObj [(''version'', JStr ''3.2.4'')]),
                   (''registry.terraform.io/hashicorp/aws'', JObj [])]"
  let ?lock = "JObj [(''provider'', JObj ?entries)]"
  let ?env = "tool_env (\<lambda>c. 0) ?lock JNull"
  let ?pv = "[''registry.terraform.io/hashicorp/dns'' \<mapsto> JStr ''3.2.4'',
              ''registry.terraform.io/hashicorp/aws'' \<mapsto> JNull]"
  have h1: "files input_state lock_file = Some ''lock''"
    by (rule input_state_files)
  have h2: "hcl_load ?env ''lock'' = Some ?lock"
    by (simp add: tool_env_def)
  have h3: "dict_get ?lock ''provider'' (JObj []) = Inr (JObj ?entries)"
    by simp
  have h4: "distinct (map fst ?entries)"
    by simp
  have h5: "read_provider_versions ?env input_state = Inr ?pv"
    unfolding read_provider_versions_loop [OF h1 h2 h3] by simp
  note t = lock_versions_keep_none [OF h1 h2 h3 h4 h5]
  have m: "(''registry.terraform.io/hashicorp/aws'', JObj []) \<in> set ?entries"
    by simp
  have n: "map_of [] ''version'' = (None :: json option)"
    by simp
  note c = t [THEN conjunct2, THEN conjunct2, THEN conjunct1, rule_format, OF m n]
  from h1 h2 h4 h5 c [THEN conjunct1] c [THEN conjunct2] show ?thesis by (intro conjI)
qed

text \<open>
  The claim as worded, "an entry without a version field yields no mapping entry at all", fails:
  the entry's key is in the dictionary, with the value \<open>None\<close>.
\<close>

theorem lock_entry_without_version_counterexample:
  "read_provider_versions (tool_env (\<lambda>c. 0)
       (JObj [(''provider'', JObj [(''registry.terraform.io/hashicorp/aws'',
                                    JObj [(''constraints'', JStr ''6.0.0'')])])]) JNull) input_state
     = Inr [''registry.terraform.io/hashicorp/aws'' \<mapsto> JNull]
   \<and> ''registry.terraform.io/hashicorp/aws'' \<in> dom [''registry.terraform.io/hashicorp/aws'' \<mapsto> JNull]
   \<and> [''registry.terraform.io/hashicorp/aws'' \<mapsto> JNull] ''registry.terraform.io/hashicorp/aws'' \<noteq> None"
  by (simp add: read_provider_versions_def read_file_def input_state_files [unfolded lock_file_def]
      tool_env_def)

section \<open>Missing sections\<close>

text \<open>
  C6: for an entry of \<open>provider_schemas\<close>, a \<open>resource_schemas\<close> section that is missing counts
  as an empty mapping, and so does a missing \<open>data_source_schemas\<close> section: the key list is
  empty, nothing is raised, the per-provider generator runs with the names of the sections
  that are there, and the file shown to the tag tool holds the declarations of those names
  only. The entry completes whenever the tag tool exits with 0 and leaves the file in place.
\<close>

theorem missing_sections_default_to_empty:
  assumes "map_of p ''resource_schemas'' = None \<and> resource_schemas = []
           \<or> (\<exists>kvs. map_of p ''resource_schemas'' = Some (JObj kvs) \<and> resource_schemas = map fst kvs)"
      and "map_of p ''data_source_schemas'' = None \<and> data_source_schemas = []
           \<or> (\<exists>kvs. map_of p ''data_source_schemas'' = Some (JObj kvs) \<and> data_source_schemas = map fst kvs)"
  shows "section_keys (JObj p) ''resource_schemas'' = Inr resource_schemas
     \<and> section_keys (JObj p) ''data_source_schemas'' = Inr data_source_schemas
     \<and> tags_for_entry env provider_versions (provider_spec, JObj p) s =
         generate_terraform_tags_for_provider env provider_spec
           (versions_get provider_versions provider_spec) resource_schemas data_source_schemas s
     \<and> map (snd \<circ> script_seen) (new_calls s
           (tags_for_entry env provider_versions (provider_spec, JObj p) s))
         = [Some (concat (map resource_line resource_schemas)
                  @ concat (map data_line data_source_schemas))]
     \<and> (\<forall>fs' x'. run_process env
             (ctags_invocation env provider_spec (versions_get provider_versions provider_spec))
             ((files s)(script_file \<mapsto> script_text resource_schemas data_source_schemas)) (ext s)
             = (0, fs', x') \<longrightarrow> fs' script_file \<noteq> None \<longrightarrow>
           (\<exists>s'. tags_for_entry env provider_versions (provider_spec, JObj p) s = Done s'))"
proof -
  have r: "section_keys (JObj p) ''resource_schemas'' = Inr resource_schemas"
    using assms(1) by (auto simp: section_keys_def)
  have d: "section_keys (JObj p) ''data_source_schemas'' = Inr data_source_schemas"
    using assms(2) by (auto simp: section_keys_def)
  note e = tags_for_entry_eq [OF r d, of env provider_versions provider_spec s]
  have seen: "map (snd \<circ> script_seen) (new_calls s
           (tags_for_entry env provider_versions (provider_spec, JObj p) s))
         = [Some (concat (map resource_line resource_schemas)
                  @ concat (map data_line data_source_schemas))]"
    unfolding e by (simp add: new_calls_provider script_seen_def script_text_eq)
  have ok: "\<exists>s'. tags_for_entry env provider_versions (provider_spec, JObj p) s = Done s'"
    if "run_process env
             (ctags_invocation env provider_spec (versions_get provider_versions provider_spec))
             ((files s)(script_file \<mapsto> script_text resource_schemas data_source_schemas)) (ext s)
             = (0, fs', x')" "fs' script_file \<noteq> None" for fs' x'
    unfolding e using that(2) by (simp add: provider_outcome [OF that(1)] Let_def)
  show ?thesis
  proof (intro conjI allI impI)
    show "section_keys (JObj p) ''resource_schemas'' = Inr resource_schemas" by (rule r)
    show "section_keys (JObj p) ''data_source_schemas'' = Inr data_source_schemas" by (rule d)
    show "tags_for_entry env provider_versions (provider_spec, JObj p) s =
         generate_terraform_tags_for_provider env provider_spec
           (versions_get provider_versions provider_spec) resource_schemas data_source_schemas s"
      by (rule e)
    show "map (snd \<circ> script_seen) (new_calls s
           (tags_for_entry env provider_versions (provider_spec, JObj p) s))
         = [Some (concat (map resource_line resource_schemas)
                  @ concat (map data_line data_source_schemas))]"
      by (rule seen)
  next
    fix fs' x'
    assume "run_process env
             (ctags_invocation env provider_spec (versions_get provider_versions provider_spec))
             ((files s)(script_file \<mapsto> script_text resource_schemas data_source_schemas)) (ext s)
             = (0, fs', x')" "fs' script_file \<noteq> None"
    then show "\<exists>s'. tags_for_entry env provider_versions (provider_spec, JObj p) s = Done s'"
      by (rule ok)
  qed
qed

theorem missing_sections_default_to_empty_witness:
  \<open>(map_of [(''provider'', JObj []), (''data_source_schemas'', JObj [(''http'', JObj [])])]
        ''resource_schemas'' = None)
   \<and> map_of [(''provider'', JObj []), (''data_source_schemas'', JObj [(''http'', JObj [])])]
        ''data_source_schemas'' = Some (JObj [(''http'', JObj [])])
   \<and> section_keys (JObj [(''provider'', JObj []), (''data_source_schemas'', JObj [(''http'', JObj [])])])
        ''resource_schemas'' = Inr []
   \<and> map (snd \<circ> script_seen) (new_calls empty_state
         (tags_for_entry quiet_env Map.empty
            (''registry.terraform.io/hashicorp/http'',
             JObj [(''provider'', JObj []), (''data_source_schemas'', JObj [(''http'', JObj [])])])
            empty_state))
       = [Some (''data "http" "http" {}'' @ [LF])]
   \<and> tags_for_entry quiet_env Map.empty
         (''registry.terraform.io/hashicorp/http'',
          JObj [(''provider'', JObj []), (''data_source_schemas'', JObj [(''http'', JObj [])])])
         empty_state
       = generate_terraform_tags_for_provider quiet_env ''registry.terraform.io/hashicorp/http''
           (versions_get Map.empty ''registry.terraform.io/hashicorp/http'') [] [''http''] empty_state\<close>
proof -
  let ?p = "[(''provider'', JObj []), (''data_source_schemas'', JObj [(''http'', JObj [])])]"
  have r0: "map_of ?p ''resource_schemas'' = None"
    by simp
  have d0: "map_of ?p ''data_source_schemas'' = Some (JObj [(''http'', JObj [])])"
    by simp
  have r: "map_of ?p ''resource_schemas'' = None \<and> ([]::string list) = []
           \<or> (\<exists>kvs. map_of ?p ''resource_schemas'' = Some (JObj kvs) \<and> [] = map fst kvs)"
    using r0 by simp
  have d: "map_of ?p ''data_source_schemas'' = None \<and> [''http''] = []
           \<or> (\<exists>kvs. map_of ?p ''data_source_schemas'' = Some (JObj kvs) \<and> [''http''] = map fst kvs)"
    by simp
  note t = missing_sections_default_to_empty [OF r d, of quiet_env Map.empty
      "''registry.terraform.io/hashicorp/http''" empty_state]
  have c: \<open>concat (map resource_line []) @ concat (map data_line [''http''])
      = ''data "http" "http" {}'' @ [LF]\<close>
    by (simp add: data_line_def)
  note t1 = t [THEN conjunct1]
  note t3 = t [THEN conjunct2, THEN conjunct2, THEN conjunct1]
  note t4 = t [THEN conjunct2, THEN conjunct2, THEN conjunct2, THEN conjunct1, unfolded c]
  from r0 d0 t1 t4 t3 show ?thesis by (intro conjI)
qed

section \<open>The whole tag generation\<close>


lemma read_schemas_eq:
  assumes "files s schemas_file = Some txt" and "json_load env txt = Some schemas"
  shows "read_schemas env s = Inr schemas"
  using assms by (simp add: read_schemas_def read_file_def schemas_file_def)

lemma generate_tags_loop:
  assumes "read_provider_versions env s = Inr pv" and "read_schemas env s = Inr schemas"
      and "dict_get schemas ''provider_schemas'' (JObj []) = Inr (JObj entries)"
  shows "generate_terraform_tags env s = tags_loop env pv entries s"
  using assms by (simp add: generate_terraform_tags_def)

lemma new_calls_state_of: "state_of r = state_of r' \<Longrightarrow> new_calls s r = new_calls s r'"
  by (simp add: new_calls_def)

lemma loop_single_state: "state_of (tags_loop env pv [entry] s) = state_of (tags_for_entry env pv entry s)"
  by (cases "tags_for_entry env pv entry s") simp_all

text \<open>
  C4: the lock file gives the provider \<open>registry.terraform.io/hashicorp/dns\<close> the version
  \<open>3.2.4\<close>; the schema file has this one provider, with the one resource schema
  \<open>dns_a_record_set\<close> and no data-source schema. Then tag generation invokes the tag tool
  exactly once, as \<open>ctags -f WORKING_DIRECTORY/hashicorp_dns-3.2.4.hcl.tags
  WORKING_DIRECTORY/generate_schemas_script.tf\<close>, and the synthetic file it is shown holds
  exactly one line, \<open>resource "dns_a_record_set" "dns_a_record_set" {}\<close>.
\<close>

theorem dns_scenario:
  assumes \<open>files s lock_file = Some lock_txt\<close>
      and \<open>hcl_load env lock_txt = Some (JObj lock)\<close>
      and \<open>map_of lock ''provider'' = Some (JObj [(''registry.terraform.io/hashicorp/dns'', JObj entry)])\<close>
      and \<open>map_of entry ''version'' = Some (JStr ''3.2.4'')\<close>
      and \<open>files s schemas_file = Some schemas_txt\<close>
      and \<open>json_load env schemas_txt = Some (JObj schemas)\<close>
      and \<open>map_of schemas ''provider_schemas'' =
             Some (JObj [(''registry.terraform.io/hashicorp/dns'', JObj provider_schema)])\<close>
      and \<open>map_of provider_schema ''resource_schemas'' = Some (JObj [(''dns_a_record_set'', resource_schema)])\<close>
      and \<open>map_of provider_schema ''data_source_schemas'' = None
           \<or> map_of provider_schema ''data_source_schemas'' = Some (JObj [])\<close>
  shows \<open>map script_seen (new_calls s (generate_terraform_tags env s)) =
           [(\<lparr>argv = [S ''ctags'', S ''-f'',
                       P (Div (Path ''/tmp/generate_terraform_ctags'') ''hashicorp_dns-3.2.4.hcl.tags''),
                       P (Div (Path ''/tmp/generate_terraform_ctags'') ''generate_schemas_script.tf'')],
              cwd = Path ''/tmp/generate_terraform_ctags'', stdout = None\<rparr>,
             Some (''resource "dns_a_record_set" "dns_a_record_set" {}'' @ [CHR 0x0A]))]
         \<and> physical_lines (''resource "dns_a_record_set" "dns_a_record_set" {}'' @ [CHR 0x0A])
             = [''resource "dns_a_record_set" "dns_a_record_set" {}'' @ [CHR 0x0A]]\<close>
proof -
  let ?dns = "''registry.terraform.io/hashicorp/dns''"
  let ?pv = "[?dns \<mapsto> JStr ''3.2.4'']"
  have l: "dict_get (JObj lock) ''provider'' (JObj []) = Inr (JObj [(?dns, JObj entry)])"
    using assms(3) by simp
  have pv: "read_provider_versions env s = Inr ?pv"
    unfolding read_provider_versions_loop [OF assms(1,2) l] using assms(4) by simp
  have sc: "read_schemas env s = Inr (JObj schemas)"
    using assms(5,6) by (rule read_schemas_eq)
  have ps: "dict_get (JObj schemas) ''provider_schemas'' (JObj []) = Inr (JObj [(?dns, JObj provider_schema)])"
    using assms(7) by simp
  have r: "section_keys (JObj provider_schema) ''resource_schemas'' = Inr [''dns_a_record_set'']"
    using assms(8) by (simp add: section_keys_def)
  have d: "section_keys (JObj provider_schema) ''data_source_schemas'' = Inr []"
    using assms(9) by (auto simp: section_keys_def)
  have "new_calls s (generate_terraform_tags env s) =
      new_calls s (tags_for_entry env ?pv (?dns, JObj provider_schema) s)"
    unfolding generate_tags_loop [OF pv sc ps] by (rule new_calls_state_of) (rule loop_single_state)
  also have "\<dots> = [(ctags_invocation env ?dns (JStr ''3.2.4''),
                      (files s)(script_file \<mapsto> script_text [''dns_a_record_set''] []))]"
    unfolding tags_for_entry_eq [OF r d] by (simp add: new_calls_provider versions_get_def)
  finally have n: "new_calls s (generate_terraform_tags env s) =
      [(ctags_invocation env ?dns (JStr ''3.2.4''),
        (files s)(script_file \<mapsto> script_text [''dns_a_record_set''] []))]" .
  have inv: "ctags_invocation env ?dns (JStr ''3.2.4'') =
      \<lparr>argv = [S ''ctags'', S ''-f'',
                       P (Div (Path ''/tmp/generate_terraform_ctags'') ''hashicorp_dns-3.2.4.hcl.tags''),
                       P (Div (Path ''/tmp/generate_terraform_ctags'') ''generate_schemas_script.tf'')],
              cwd = Path ''/tmp/generate_terraform_ctags'', stdout = None\<rparr>"
    by (simp add: ctags_invocation_def output_filename_def provider_name_def CTAGS_COMMAND_def
        WORKING_DIRECTORY_def TERRAFORM_SCRIPT_FILENAME_def)
  have content: \<open>script_text [''dns_a_record_set''] [] =
      ''resource "dns_a_record_set" "dns_a_record_set" {}'' @ [CHR 0x0A]\<close>
    by (simp add: script_text_eq resource_line_def LF_def)
  have a: \<open>map script_seen (new_calls s (generate_terraform_tags env s)) =
           [(\<lparr>argv = [S ''ctags'', S ''-f'',
                       P (Div (Path ''/tmp/generate_terraform_ctags'') ''hashicorp_dns-3.2.4.hcl.tags''),
                       P (Div (Path ''/tmp/generate_terraform_ctags'') ''generate_schemas_script.tf'')],
              cwd = Path ''/tmp/generate_terraform_ctags'', stdout = None\<rparr>,
             Some (''resource "dns_a_record_set" "dns_a_record_set" {}'' @ [CHR 0x0A]))]\<close>
    unfolding n inv by (simp add: script_seen_def content)
  have b: \<open>physical_lines (''resource "dns_a_record_set" "dns_a_record_set" {}'' @ [CHR 0x0A])
             = [''resource "dns_a_record_set" "dns_a_record_set" {}'' @ [CHR 0x0A]]\<close>
    by (simp add: physical_lines_def LF_def)
  from a b show ?thesis by (rule conjI)
qed

theorem dns_scenario_witness:
  \<open>files input_state lock_file = Some ''lock''
   \<and> files input_state schemas_file = Some ''schemas''
   \<and> map_of [(''version'', JStr ''3.2.4''), (''hashes'', JArr [])] ''version'' = Some (JStr ''3.2.4'')
   \<and> map_of [(''provider'', JObj []), (''resource_schemas'', JObj [(''dns_a_record_set'', JObj [])])]
        ''data_source_schemas'' = None
   \<and> map script_seen (new_calls input_state (generate_terraform_tags
         (tool_env (\<lambda>c. 0)
            (JObj [(''provider'', JObj [(''registry.terraform.io/hashicorp/dns'',
                      JObj [(''version'', JStr ''3.2.4''), (''hashes'', JArr [])])])])
            (JObj [(''format_version'', JStr ''1.0''),
                   (''provider_schemas'', JObj [(''registry.terraform.io/hashicorp/dns'',
                      JObj [(''provider'', JObj []),
                            (''resource_schemas'', JObj [(''dns_a_record_set'', JObj [])])])])]))
         input_state))
       = [(\<lparr>argv = [S ''ctags'', S ''-f'',
                    P (Div (Path ''/tmp/generate_terraform_ctags'') ''hashicorp_dns-3.2.4.hcl.tags''),
                    P (Div (Path ''/tmp/generate_terraform_ctags'') ''generate_schemas_script.tf'')],
            cwd = Path ''/tmp/generate_terraform_ctags'', stdout = None\<rparr>,
           Some (''resource "dns_a_record_set" "dns_a_record_set" {}'' @ [CHR 0x0A]))]\<close>
proof -
  let ?dns = "''registry.terraform.io/hashicorp/dns''"
  let ?entry = "[(''version'', JStr ''3.2.4''), (''hashes'', JArr [])]"
  let ?lock = "[(''provider'', JObj [(?dns, JObj ?entry)])]"
  let ?ps = "[(''provider'', JObj []), (''resource_schemas'', JObj [(''dns_a_record_set'', JObj [])])]"
  let ?schemas = "[(''format_version'', JStr ''1.0''), (''provider_schemas'', JObj [(?dns, JObj ?ps)])]"
  let ?env = "tool_env (\<lambda>c. 0) (JObj ?lock) (JObj ?schemas)"
  have h1: "files input_state lock_file = Some ''lock''" by (rule input_state_files)
  have h2: "hcl_load ?env ''lock'' = Some (JObj ?lock)" by (simp add: tool_env_def)
  have h3: "map_of ?lock ''provider'' = Some (JObj [(?dns, JObj ?entry)])" by simp
  have h4: "map_of ?entry ''version'' = Some (JStr ''3.2.4'')" by simp
  have h5: "files input_state schemas_file = Some ''schemas''" by (rule input_state_files)
  have h6: "json_load ?env ''schemas'' = Some (JObj ?schemas)" by (simp add: tool_env_def)
  have h7: "map_of ?schemas ''provider_schemas'' = Some (JObj [(?dns, JObj ?ps)])" by simp
  have h8: "map_of ?ps ''resource_schemas'' = Some (JObj [(''dns_a_record_set'', JObj [])])" by simp
  have n: "map_of ?ps ''data_source_schemas'' = None" by simp
  have h9: "map_of ?ps ''data_source_schemas'' = None
      \<or> map_of ?ps ''data_source_schemas'' = Some (JObj [])"
    using n by (rule disjI1)
  note t = dns_scenario [OF h1 h2 h3 h4 h5 h6 h7 h8 h9, THEN conjunct1]
  from h1 h5 h4 n t show ?thesis by (intro conjI)
qed

section \<open>The version token of the tag file\<close>



lemma completed_Done: "completed r \<Longrightarrow> \<exists>s'. r = Done s'"
  by (cases r) simp_all



lemma loop_completes:
  assumes tool: "\<And>call fs x. run_process env call fs x = (0, fs, x)"
      and keys: "\<And>entry. entry \<in> set entries \<Longrightarrow>
        (\<exists>rs. section_keys (snd entry) ''resource_schemas'' = Inr rs)
        \<and> (\<exists>ds. section_keys (snd entry) ''data_source_schemas'' = Inr ds)"
  shows "completed (tags_loop env pv entries s)"
  using keys
proof (induction entries arbitrary: s)
  case Nil
  show ?case by simp
next
  case (Cons entry rest)
  obtain spec schema where entry: "entry = (spec, schema)" by (cases entry)
  from Cons.prems [of entry] entry obtain rs ds where
    r: "section_keys schema ''resource_schemas'' = Inr rs" and
    d: "section_keys schema ''data_source_schemas'' = Inr ds" by auto
  have "\<exists>s'. tags_for_entry env pv entry s = Done s'"
    unfolding entry tags_for_entry_eq [OF r d] provider_outcome [OF tool] by (simp add: Let_def)
  then obtain s' where s': "tags_for_entry env pv entry s = Done s'" by blast
  have "completed (tags_loop env pv rest s')"
    by (rule Cons.IH) (rule Cons.prems, simp)
  with s' show ?case by simp
qed

lemma lookup_without_version:
  assumes "files s lock_file = Some txt" and "hcl_load env txt = Some lockfile_contents"
      and "dict_get lockfile_contents ''provider'' (JObj []) = Inr (JObj lock_entries)"
      and "distinct (map fst lock_entries)"
      and "read_provider_versions env s = Inr provider_versions"
      and "map_of lock_entries provider_spec = None
           \<or> (\<exists>e. map_of lock_entries provider_spec = Some (JObj e) \<and> map_of e ''version'' = None)"
  shows "versions_get provider_versions provider_spec = JNull"
proof -
  have loop: "provider_versions_loop lock_entries Map.empty = Inr provider_versions"
    using read_provider_versions_loop [OF assms(1-3)] assms(5) by simp
  from assms(6) show ?thesis
  proof
    assume "map_of lock_entries provider_spec = None"
    then have "provider_spec \<notin> fst ` set lock_entries" by (simp add: map_of_eq_None_iff)
    from versions_loop_absent [OF loop this] show ?thesis by (simp add: versions_get_def)
  next
    assume "\<exists>e. map_of lock_entries provider_spec = Some (JObj e) \<and> map_of e ''version'' = None"
    then obtain e where e: "map_of lock_entries provider_spec = Some (JObj e)"
      "map_of e ''version'' = None" by blast
    from e(1) have "(provider_spec, JObj e) \<in> set lock_entries" by (rule map_of_SomeD)
    from versions_loop_present [OF loop assms(4) this] e(2)
    show ?thesis by (simp add: versions_get_def)
  qed
qed

lemma fst_script_seen: "fst (script_seen c) = fst c"
  by (simp add: script_seen_def)

text \<open>
  C3: in a run of tag generation the tag tool is invoked for the entries of
  \<open>provider_schemas\<close> in their order, once for each entry when the run completes. Whenever
  it is invoked for a provider spec that the lock file's \<open>provider\<close> section does not name,
  or whose entry there has no \<open>version\<close> field, the output file of the invocation is
  \<open>WORKING_DIRECTORY / "<provider name>-unknown.hcl.tags"\<close>.
\<close>

theorem unknown_version_token_in_run:
  assumes "files s lock_file = Some txt" and "hcl_load env txt = Some lockfile_contents"
      and "dict_get lockfile_contents ''provider'' (JObj []) = Inr (JObj lock_entries)"
      and "distinct (map fst lock_entries)"
      and "read_provider_versions env s = Inr provider_versions"
      and "read_schemas env s = Inr schemas"
      and "dict_get schemas ''provider_schemas'' (JObj []) = Inr (JObj entries)"
  shows "length (new_calls s (generate_terraform_tags env s)) \<le> length entries
     \<and> (completed (generate_terraform_tags env s) \<longrightarrow>
          length (new_calls s (generate_terraform_tags env s)) = length entries)
     \<and> (\<forall>i < length (new_calls s (generate_terraform_tags env s)).
          (map_of lock_entries (fst (entries ! i)) = None
           \<or> (\<exists>e. map_of lock_entries (fst (entries ! i)) = Some (JObj e)
                 \<and> map_of e ''version'' = None)) \<longrightarrow>
          argv (fst (new_calls s (generate_terraform_tags env s) ! i))
            = [S CTAGS_COMMAND, S ''-f'',
               P (Div WORKING_DIRECTORY (provider_name (fst (entries ! i)) @ ''-unknown.hcl.tags'')),
               P (Div WORKING_DIRECTORY TERRAFORM_SCRIPT_FILENAME)])"
proof -
  let ?run = "generate_terraform_tags env s"
  note g = generate_tags_loop [OF assms(5,6,7)]
  from loop_trace [of entries s env provider_versions] obtain k where k: "k \<le> length entries"
    "map script_seen (new_calls s (tags_loop env provider_versions entries s))
       = take k (map (entry_seen env provider_versions) entries)"
    "(\<exists>s'. tags_loop env provider_versions entries s = Done s') \<longrightarrow> k = length entries" by blast
  have seen: "map script_seen (new_calls s ?run) = take k (map (entry_seen env provider_versions) entries)"
    unfolding g by (rule k(2))
  have "length (map script_seen (new_calls s ?run)) = k"
    unfolding seen using k(1) by simp
  then have len: "length (new_calls s ?run) = k" by simp
  have a: "length (new_calls s ?run) \<le> length entries"
    unfolding len by (rule k(1))
  have b: "length (new_calls s ?run) = length entries" if "completed ?run"
  proof -
    from completed_Done [OF that] have "\<exists>s'. tags_loop env provider_versions entries s = Done s'"
      unfolding g .
    with k(3) show ?thesis unfolding len by blast
  qed
  have c: "argv (fst (new_calls s ?run ! i))
            = [S CTAGS_COMMAND, S ''-f'',
               P (Div WORKING_DIRECTORY (provider_name (fst (entries ! i)) @ ''-unknown.hcl.tags'')),
               P (Div WORKING_DIRECTORY TERRAFORM_SCRIPT_FILENAME)]"
    if i: "i < length (new_calls s ?run)"
      and v: "map_of lock_entries (fst (entries ! i)) = None
           \<or> (\<exists>e. map_of lock_entries (fst (entries ! i)) = Some (JObj e)
                 \<and> map_of e ''version'' = None)" for i
  proof -
    from i have ik: "i < k" unfolding len .
    have "script_seen (new_calls s ?run ! i) = map script_seen (new_calls s ?run) ! i"
      using i by simp
    also have "\<dots> = entry_seen env provider_versions (entries ! i)"
      unfolding seen using ik k(1) by simp
    finally have e: "script_seen (new_calls s ?run ! i) = entry_seen env provider_versions (entries ! i)" .
    have "fst (new_calls s ?run ! i) = fst (script_seen (new_calls s ?run ! i))"
      by (simp only: fst_script_seen)
    then have "fst (new_calls s ?run ! i) = fst (entry_seen env provider_versions (entries ! i))"
      unfolding e .
    then have "fst (new_calls s ?run ! i) =
        ctags_invocation env (fst (entries ! i)) (versions_get provider_versions (fst (entries ! i)))"
      by (simp add: entry_seen_def)
    also have "versions_get provider_versions (fst (entries ! i)) = JNull"
      using assms(1-5) v by (rule lookup_without_version)
    finally show ?thesis
      by (simp add: ctags_invocation_def output_filename_unknown)
  qed
  show ?thesis
  proof (intro conjI allI impI)
    show "length (new_calls s ?run) \<le> length entries" by (rule a)
  next
    assume "completed ?run"
    then show "length (new_calls s ?run) = length entries" by (rule b)
  next
    fix i
    assume "i < length (new_calls s ?run)"
      and "map_of lock_entries (fst (entries ! i)) = None
           \<or> (\<exists>e. map_of lock_entries (fst (entries ! i)) = Some (JObj e)
                 \<and> map_of e ''version'' = None)"
    then show "argv (fst (new_calls s ?run ! i))
            = [S CTAGS_COMMAND, S ''-f'',
               P (Div WORKING_DIRECTORY (provider_name (fst (entries ! i)) @ ''-unknown.hcl.tags'')),
               P (Div WORKING_DIRECTORY TERRAFORM_SCRIPT_FILENAME)]"
      by (rule c)
  qed
qed

lemma tool_env_run: "run_process (tool_env (\<lambda>c. 0) lock schemas) call fs x = (0, fs, x)"
  by (simp add: tool_env_def)

theorem unknown_version_token_in_run_witness:
  "read_provider_versions
       (tool_env (\<lambda>c. 0)
          (JObj [(''provider'', JObj [(''registry.terraform.io/hashicorp/dns'', JObj [(''version'', JStr ''3.2.4'')])])])
          (JObj [(''provider_schemas'', JObj
             [(''registry.terraform.io/hashicorp/dns'', JObj [(''resource_schemas'', JObj [(''dns_a_record_set'', JObj [])])]),
              (''registry.terraform.io/hashicorp/helm'', JObj [(''resource_schemas'', JObj [(''helm_release'', JObj [])])])])]))
       input_state
     = Inr [''registry.terraform.io/hashicorp/dns'' \<mapsto> JStr ''3.2.4'']
   \<and> map_of [(''registry.terraform.io/hashicorp/dns'', JObj [(''version'', JStr ''3.2.4'')])]
        ''registry.terraform.io/hashicorp/helm'' = None
   \<and> completed (generate_terraform_tags
       (tool_env (\<lambda>c. 0)
          (JObj [(''provider'', JObj [(''registry.terraform.io/hashicorp/dns'', JObj [(''version'', JStr ''3.2.4'')])])])
          (JObj [(''provider_schemas'', JObj
             [(''registry.terraform.io/hashicorp/dns'', JObj [(''resource_schemas'', JObj [(''dns_a_record_set'', JObj [])])]),
              (''registry.terraform.io/hashicorp/helm'', JObj [(''resource_schemas'', JObj [(''helm_release'', JObj [])])])])]))
       input_state)
   \<and> length (new_calls input_state (generate_terraform_tags
       (tool_env (\<lambda>c. 0)
          (JObj [(''provider'', JObj [(''registry.terraform.io/hashicorp/dns'', JObj [(''version'', JStr ''3.2.4'')])])])
          (JObj [(''provider_schemas'', JObj
             [(''registry.terraform.io/hashicorp/dns'', JObj [(''resource_schemas'', JObj [(''dns_a_record_set'', JObj [])])]),
              (''registry.terraform.io/hashicorp/helm'', JObj [(''resource_schemas'', JObj [(''helm_release'', JObj [])])])])]))
       input_state)) = 2
   \<and> argv (fst (new_calls input_state (generate_terraform_tags
       (tool_env (\<lambda>c. 0)
          (JObj [(''provider'', JObj [(''registry.terraform.io/hashicorp/dns'', JObj [(''version'', JStr ''3.2.4'')])])])
          (JObj [(''provider_schemas'', JObj
             [(''registry.terraform.io/hashicorp/dns'', JObj [(''resource_schemas'', JObj [(''dns_a_record_set'', JObj [])])]),
              (''registry.terraform.io/hashicorp/helm'', JObj [(''resource_schemas'', JObj [(''helm_release'', JObj [])])])])]))
       input_state) ! Suc 0))
     = [S ''ctags'', S ''-f'',
        P (Div (Path ''/tmp/generate_terraform_ctags'') ''hashicorp_helm-unknown.hcl.tags''),
        P (Div (Path ''/tmp/generate_terraform_ctags'') ''generate_schemas_script.tf'')]"
proof -
  let ?dns = "''registry.terraform.io/hashicorp/dns''"
  let ?helm = "''registry.terraform.io/hashicorp/helm''"
  let ?lock_entries = "[(?dns, JObj [(''version'', JStr ''3.2.4'')])]"
  let ?lock = "JObj [(''provider'', JObj ?lock_entries)]"
  let ?entries = "[(?dns, JObj [(''resource_schemas'', JObj [(''dns_a_record_set'', JObj [])])]),
                   (?helm, JObj [(''resource_schemas'', JObj [(''helm_release'', JObj [])])])]"
  let ?schemas = "JObj [(''provider_schemas'', JObj ?entries)]"
  let ?env = "tool_env (\<lambda>c. 0) ?lock ?schemas"
  let ?pv = "[?dns \<mapsto> JStr ''3.2.4'']"
  let ?run = "generate_terraform_tags ?env input_state"
  have h1: "files input_state lock_file = Some ''lock''" by (rule input_state_files)
  have h2: "hcl_load ?env ''lock'' = Some ?lock" by (simp add: tool_env_def)
  have h3: "dict_get ?lock ''provider'' (JObj []) = Inr (JObj ?lock_entries)" by simp
  have h4: "distinct (map fst ?lock_entries)" by simp
  have h5: "read_provider_versions ?env input_state = Inr ?pv"
    unfolding read_provider_versions_loop [OF h1 h2 h3] by simp
  have j: "json_load ?env ''schemas'' = Some ?schemas" by (simp add: tool_env_def)
  have h6: "read_schemas ?env input_state = Inr ?schemas"
    using input_state_files(2) j by (rule read_schemas_eq)
  have h7: "dict_get ?schemas ''provider_schemas'' (JObj []) = Inr (JObj ?entries)" by simp
  have keys: "(\<exists>rs. section_keys (snd entry) ''resource_schemas'' = Inr rs)
        \<and> (\<exists>ds. section_keys (snd entry) ''data_source_schemas'' = Inr ds)"
    if "entry \<in> set ?entries" for entry
    using that by (auto simp: section_keys_def)
  have comp: "completed ?run"
    unfolding generate_tags_loop [OF h5 h6 h7] using tool_env_run keys by (rule loop_completes)
  note t = unknown_version_token_in_run [OF h1 h2 h3 h4 h5 h6 h7]
  have len: "length (new_calls input_state ?run) = 2"
    using t [THEN conjunct2, THEN conjunct1, THEN mp, OF comp] by simp
  have lt: "Suc 0 < length (new_calls input_state ?run)"
    unfolding len by simp
  have n: "map_of ?lock_entries ?helm = None" by simp
  have v: "map_of ?lock_entries (fst (?entries ! Suc 0)) = None
      \<or> (\<exists>e. map_of ?lock_entries (fst (?entries ! Suc 0)) = Some (JObj e) \<and> map_of e ''version'' = None)"
    by simp
  note t3 = t [THEN conjunct2, THEN conjunct2, rule_format, OF lt v]
  have name: "provider_name (fst (?entries ! Suc 0)) @ ''-unknown.hcl.tags''
      = ''hashicorp_helm-unknown.hcl.tags''"
    by (simp add: provider_name_def)
  note c = t3 [unfolded name CTAGS_COMMAND_def WORKING_DIRECTORY_def TERRAFORM_SCRIPT_FILENAME_def]
  from h5 n comp len c show ?thesis by (intro conjI)
qed

section \<open>Running tag generation twice\<close>



section \<open>Failing subprocesses\<close>











end
